theory Spec2Isabelle
  imports Complex_Main "HOL-Library.AList" "HOL-Library.Multiset"
begin

section \<open>Strings\<close>

text \<open>
  Source strings are modelled as \<^typ>\<open>string\<close>. The model covers ASCII text: a character is
  one code unit, \<open>toLowerCase\<close> maps \<open>A\<close>..\<open>Z\<close> to \<open>a\<close>..\<open>z\<close> and leaves every other
  character alone, white space is the ASCII white space, and a line ends at a line feed or a
  carriage return.
\<close>

definition toLowerChar :: "char \<Rightarrow> char" where
  "toLowerChar c =
     (case map_of (zip ''ABCDEFGHIJKLMNOPQRSTUVWXYZ'' ''abcdefghijklmnopqrstuvwxyz'') c of
        Some d \<Rightarrow> d
      | None \<Rightarrow> c)"

definition toLowerCase :: "string \<Rightarrow> string" where
  "toLowerCase s = map toLowerChar s"

text \<open>\<open>s.startsWith(p)\<close>, \<open>s.endsWith(p)\<close> and \<open>s.includes(p)\<close> on strings.\<close>

definition startsWith :: "string \<Rightarrow> string \<Rightarrow> bool" where
  "startsWith s p = (take (length p) s = p)"

definition endsWith :: "string \<Rightarrow> string \<Rightarrow> bool" where
  "endsWith s p = (length p \<le> length s \<and> drop (length s - length p) s = p)"

fun includes_str :: "string \<Rightarrow> string \<Rightarrow> bool" where
  "includes_str [] p = (p = [])"
| "includes_str (c # cs) p = (startsWith (c # cs) p \<or> includes_str cs p)"

text \<open>\<open>s.split("/")\<close> for a one-character separator: the result is never empty.\<close>

fun split :: "char \<Rightarrow> string \<Rightarrow> string list" where
  "split sep [] = [[]]"
| "split sep (c # cs) =
     (if c = sep then [] # split sep cs
      else (case split sep cs of
              [] \<Rightarrow> [[c]]
            | w # ws \<Rightarrow> (c # w) # ws))"

text \<open>\<open>parts.join("/")\<close>.\<close>

fun join :: "string \<Rightarrow> string list \<Rightarrow> string" where
  "join sep [] = []"
| "join sep [w] = w"
| "join sep (w # v # ws) = w @ sep @ join sep (v # ws)"

text \<open>
  \<open>xs.slice(0, e)\<close> for an integer \<open>e\<close>: a negative end counts from the end of the array,
  and the result is clamped to the array.
\<close>

definition slice0 :: "'a list \<Rightarrow> int \<Rightarrow> 'a list" where
  "slice0 xs e =
     (if e < 0 then take (nat (max (int (length xs) + e) 0)) xs
      else take (nat e) xs)"

section \<open>Language registry (language-configs.ts)\<close>

record LanguageConfig =
  id' :: string
  displayName :: string
  aliases :: "string list"
  extensions :: "string list"
  excludePatterns :: "string list"
  manifestFiles :: "string list"
  fileTypes :: "(string \<times> string list) list"

definition javascriptConfig :: LanguageConfig where
  "javascriptConfig = \<lparr>
     id' = ''javascript'',
     displayName = ''JavaScript/TypeScript'',
     aliases = [''typescript'', ''tsx'', ''jsx'', ''js'', ''ts''],
     extensions = [''.js'', ''.jsx'', ''.ts'', ''.tsx'', ''.mjs'', ''.cjs''],
     excludePatterns =
       [''node_modules'', ''.d.ts'', ''.test.'', ''.spec.'', ''dist/'', ''build/'', ''.next/''],
     manifestFiles =
       [''package.json'', ''tsconfig.json'', ''yarn.lock'', ''package-lock.json'',
        ''pnpm-lock.yaml''],
     fileTypes =
       [(''component'', [''/components/'', ''.tsx'', ''.jsx'']),
        (''api'', [''/api/'', ''route.ts'', ''route.js'']),
        (''util'', [''/utils/'', ''/lib/'', ''/helpers/'']),
        (''page'', [''/app/'', ''/pages/'', ''page.'']),
        (''config'', [''config'', ''.config.'']),
        (''style'', [''.css'', ''.scss'', ''.sass'']),
        (''hook'', [''/hooks/'', ''use'']),
        (''service'', [''/services/'']),
        (''middleware'', [''/middleware/'', ''middleware.'']),
        (''other'', [])] \<rparr>"

definition pythonConfig :: LanguageConfig where
  "pythonConfig = \<lparr>
     id' = ''python'',
     displayName = ''Python'',
     aliases = [''py''],
     extensions = [''.py'', ''.pyi'', ''.pyw''],
     excludePatterns =
       [''__pycache__'', ''.pyc'', ''.pyo'', ''.pyd'', ''venv/'', ''.venv/'', ''env/'',
        ''.pytest_cache/'', ''dist/'', ''build/''],
     manifestFiles =
       [''requirements.txt'', ''setup.py'', ''pyproject.toml'', ''Pipfile'', ''poetry.lock'',
        ''setup.cfg''],
     fileTypes =
       [(''model'', [''/models/'', ''_model.py'', ''/entities/'']),
        (''view'', [''/views/'', ''_view.py'']),
        (''controller'', [''/controllers/'', ''_controller.py'']),
        (''service'', [''/services/'', ''_service.py'']),
        (''util'', [''/utils/'', ''/helpers/'', ''_utils.py'']),
        (''test'', [''/tests/'', ''_test.py'', ''test_'']),
        (''config'', [''config.py'', ''settings.py'']),
        (''api'', [''/api/'', ''/endpoints/'']),
        (''middleware'', [''/middleware/'']),
        (''other'', [])] \<rparr>"

definition goConfig :: LanguageConfig where
  "goConfig = \<lparr>
     id' = ''go'',
     displayName = ''Go'',
     aliases = [''golang''],
     extensions = [''.go''],
     excludePatterns = [''/vendor/'', ''_test.go'', ''/testdata/''],
     manifestFiles = [''go.mod'', ''go.sum''],
     fileTypes =
       [(''handler'', [''/handlers/'', ''/controllers/'', ''_handler.go'']),
        (''model'', [''/models/'', ''/entities/'', ''_model.go'']),
        (''service'', [''/services/'', ''_service.go'']),
        (''util'', [''/utils/'', ''/pkg/'']),
        (''test'', [''_test.go'']),
        (''middleware'', [''/middleware/'']),
        (''api'', [''/api/'']),
        (''config'', [''config.go'']),
        (''other'', [])] \<rparr>"

definition rustConfig :: LanguageConfig where
  "rustConfig = \<lparr>
     id' = ''rust'',
     displayName = ''Rust'',
     aliases = [''rs''],
     extensions = [''.rs''],
     excludePatterns = [''/target/'', ''/deps/''],
     manifestFiles = [''Cargo.toml'', ''Cargo.lock''],
     fileTypes =
       [(''model'', [''/models/'', ''/entities/'']),
        (''service'', [''/services/'']),
        (''util'', [''/utils/'', ''/helpers/'']),
        (''handler'', [''/handlers/'', ''/routes/'']),
        (''api'', [''/api/'']),
        (''config'', [''config.rs'']),
        (''test'', [''/tests/'', ''_test.rs'']),
        (''other'', [])] \<rparr>"

definition javaConfig :: LanguageConfig where
  "javaConfig = \<lparr>
     id' = ''java'',
     displayName = ''Java'',
     aliases = [],
     extensions = [''.java''],
     excludePatterns = [''/target/'', ''/build/'', ''.class''],
     manifestFiles = [''pom.xml'', ''build.gradle'', ''build.gradle.kts'', ''settings.gradle''],
     fileTypes =
       [(''controller'', [''/controller/'', ''Controller.java'']),
        (''service'', [''/service/'', ''Service.java'']),
        (''model'', [''/model/'', ''/entity/'', ''Entity.java'']),
        (''repository'', [''/repository/'', ''Repository.java'']),
        (''util'', [''/util/'', ''Utils.java'']),
        (''config'', [''/config/'', ''Config.java'']),
        (''api'', [''/api/'']),
        (''test'', [''/test/'', ''Test.java'']),
        (''other'', [])] \<rparr>"

definition cppConfig :: LanguageConfig where
  "cppConfig = \<lparr>
     id' = ''cpp'',
     displayName = ''C/C++'',
     aliases = [''c'', ''c++'', ''cxx''],
     extensions = [''.cpp'', ''.cc'', ''.cxx'', ''.c'', ''.h'', ''.hpp'', ''.hxx''],
     excludePatterns = [''/build/'', ''/cmake-build-'', ''.o'', ''.a'', ''.so''],
     manifestFiles = [''CMakeLists.txt'', ''Makefile'', ''configure.ac''],
     fileTypes =
       [(''header'', [''.h'', ''.hpp'', ''.hxx'']),
        (''source'', [''.cpp'', ''.cc'', ''.cxx'', ''.c'']),
        (''util'', [''/utils/'', ''/helpers/'']),
        (''test'', [''/tests/'', ''_test.'']),
        (''config'', [''config.'']),
        (''other'', [])] \<rparr>"

definition rubyConfig :: LanguageConfig where
  "rubyConfig = \<lparr>
     id' = ''ruby'',
     displayName = ''Ruby'',
     aliases = [''rb''],
     extensions = [''.rb'', ''.rake''],
     excludePatterns = [''/vendor/'', ''.bundle/''],
     manifestFiles = [''Gemfile'', ''Gemfile.lock'', ''Rakefile''],
     fileTypes =
       [(''controller'', [''/controllers/'', ''_controller.rb'']),
        (''model'', [''/models/'', ''_model.rb'']),
        (''view'', [''/views/'']),
        (''service'', [''/services/'', ''_service.rb'']),
        (''util'', [''/lib/'', ''/helpers/'']),
        (''test'', [''/test/'', ''/spec/'', ''_spec.rb'']),
        (''config'', [''/config/'']),
        (''other'', [])] \<rparr>"

definition phpConfig :: LanguageConfig where
  "phpConfig = \<lparr>
     id' = ''php'',
     displayName = ''PHP'',
     aliases = [],
     extensions = [''.php''],
     excludePatterns = [''/vendor/'', ''/cache/''],
     manifestFiles = [''composer.json'', ''composer.lock''],
     fileTypes =
       [(''controller'', [''/Controllers/'', ''Controller.php'']),
        (''model'', [''/Models/'', ''Model.php'']),
        (''service'', [''/Services/'', ''Service.php'']),
        (''view'', [''/views/'', ''/templates/'']),
        (''util'', [''/Utils/'', ''/Helpers/'']),
        (''middleware'', [''/Middleware/'']),
        (''test'', [''/tests/'', ''Test.php'']),
        (''config'', [''/config/'']),
        (''other'', [])] \<rparr>"

text \<open>The catalogue, in its priority order.\<close>

definition LANGUAGE_CONFIGS :: "LanguageConfig list" where
  "LANGUAGE_CONFIGS =
     [javascriptConfig, pythonConfig, goConfig, rustConfig, javaConfig, cppConfig, rubyConfig,
      phpConfig]"

text \<open>
  \<open>getLanguageConfig\<close>: the first profile whose identifier is the argument as given, or
  whose alias list holds the argument in lower case.
\<close>

definition getLanguageConfig :: "string \<Rightarrow> LanguageConfig option" where
  "getLanguageConfig languageId =
     List.find (\<lambda>config. id' config = languageId \<or> toLowerCase languageId \<in> set (aliases config))
       LANGUAGE_CONFIGS"

definition getSupportedLanguageIds :: "string list" where
  "getSupportedLanguageIds = map id' LANGUAGE_CONFIGS"

section \<open>Language detector (language-detector.ts)\<close>

text \<open>
  The constructor's lookup table: every profile under its identifier and under each of its
  aliases in lower case; a later entry replaces an earlier one with the same key.
\<close>

definition addConfig :: "LanguageConfig \<Rightarrow> (string \<rightharpoonup> LanguageConfig) \<Rightarrow> (string \<rightharpoonup> LanguageConfig)" where
  "addConfig config m =
     fold (\<lambda>alias m'. m'(toLowerCase alias \<mapsto> config)) (aliases config) (m(id' config \<mapsto> config))"

definition configs :: "string \<rightharpoonup> LanguageConfig" where
  "configs = fold addConfig LANGUAGE_CONFIGS Map.empty"

definition getConfig :: "string \<Rightarrow> LanguageConfig option" where
  "getConfig languageId = configs (toLowerCase languageId)"

text \<open>Entries of the repository listing (\<open>GitHubTreeItem\<close>).\<close>

record GitHubTreeItem =
  item_path :: string
  item_type :: string
  item_sha :: string

text \<open>The detection method tags \<open>"github-api" | "manifest" | "extension" | "manual"\<close>.\<close>

datatype DetectionMethod = GithubApi | Manifest | Extension | Manual

text \<open>
  A value that is handed on as a language identifier. The interface declares it a string,
  and it is one but for the last step of \<open>mapGitHubLanguageToId\<close>: the manual table there
  is an object literal, and a property read on an object also answers for the names that
  every object inherits from \<open>Object.prototype\<close>. \<open>Inherited k\<close> is the inherited
  property \<open>k\<close>, a function or, for \<open>__proto__\<close>, the prototype object itself; it is not
  a string, and in a condition it counts as true.
\<close>

datatype jsvalue = Str string | Inherited string

definition inheritedNames :: "string list" where
  "inheritedNames =
     [''constructor'', ''__defineGetter__'', ''__defineSetter__'', ''hasOwnProperty'',
      ''__lookupGetter__'', ''__lookupSetter__'', ''isPrototypeOf'', ''propertyIsEnumerable'',
      ''toString'', ''valueOf'', ''__proto__'', ''toLocaleString'']"

text \<open>\<open>table[key]\<close> for a table written as an object literal; \<open>None\<close> is \<open>undefined\<close>.\<close>

definition property :: "(string \<times> string) list \<Rightarrow> string \<Rightarrow> jsvalue option" where
  "property table key =
     (case map_of table key of
        Some v \<Rightarrow> Some (Str v)
      | None \<Rightarrow> if key \<in> set inheritedNames then Some (Inherited key) else None)"

text \<open>
  The numbers of the code are binary64 floating-point numbers. Byte counts and file counts
  are integers here: sums and comparisons of counts that are not negative are exact in
  that format as long as the total is below \<open>2^53\<close>, and these are the counts that the
  model covers. A quotient of two counts is rounded: \<open>binary64 x\<close> is the floating-point
  number nearest to the rational \<open>x\<close>, a tie going to the even mantissa; below the normal
  range the spacing is \<open>2^-1074\<close>, and the quotient of two such counts is never beyond
  the range of the format. A decimal literal of the code, such as \<open>0.8\<close>, is given by the
  fraction that it writes.
\<close>

function bitLength :: "int \<Rightarrow> nat" where
  "bitLength n = (if n \<le> 0 then 0 else Suc (bitLength (n div 2)))"
  by pat_completeness auto
termination
  by (relation "measure nat") auto

declare bitLength.simps [simp del]

definition pow2 :: "int \<Rightarrow> rat" where
  "pow2 e = (if 0 \<le> e then 2 ^ nat e else 1 / 2 ^ nat (- e))"

text \<open>The exponent of a positive rational \<open>x\<close>: the \<open>e\<close> with \<open>2^e \<le> x < 2^(e+1)\<close>.\<close>

definition exponent :: "rat \<Rightarrow> int" where
  "exponent x =
     (let e = int (bitLength (fst (quotient_of x))) - int (bitLength (snd (quotient_of x)))
      in if pow2 e \<le> x then e else e - 1)"

definition roundHalfEven :: "rat \<Rightarrow> int" where
  "roundHalfEven x =
     (let n = \<lfloor>x\<rfloor>; r = x - of_int n in
      if r < 1 / 2 then n else if 1 / 2 < r then n + 1 else if even n then n else n + 1)"

definition binary64 :: "rat \<Rightarrow> rat" where
  "binary64 x =
     (if x = 0 then 0
      else (let ulp = pow2 (max (exponent \<bar>x\<bar>) (- 1022) - 52)
            in of_int (roundHalfEven (x / ulp)) * ulp))"

text \<open>\<open>LanguageDetection\<close>; the two optional metadata fields are kept flat.\<close>

record LanguageDetection =
  language :: jsvalue
  confidence :: rat
  detectionMethod :: DetectionMethod
  languageStats :: "(string \<times> int) list option"
  detectedManifestFiles :: "string list option"

text \<open>
  The manual table of \<open>mapGitHubLanguageToId\<close>, and the function: the constructor's
  lookup table first, then \<open>mappings[normalized] || normalized\<close>.
\<close>

definition mappings :: "(string \<times> string) list" where
  "mappings =
     [(''typescript'', ''javascript''), (''tsx'', ''javascript''), (''jsx'', ''javascript''),
      (''c++'', ''cpp''), (''c#'', ''csharp'')]"

definition mapGitHubLanguageToId :: "string \<Rightarrow> jsvalue" where
  "mapGitHubLanguageToId githubLanguage =
     (let normalized = toLowerCase githubLanguage in
      case configs normalized of
        Some config \<Rightarrow> Str (id' config)
      | None \<Rightarrow>
          (case property mappings normalized of
             Some (Str v) \<Rightarrow> if v \<noteq> [] then Str v else Str normalized
           | Some (Inherited k) \<Rightarrow> Inherited k
           | None \<Rightarrow> Str normalized))"

text \<open>
  \<open>detectFromGitHubAPI\<close>. The argument is what the request to the host gave: \<open>None\<close> when
  the request failed or its status was not ok, otherwise the table of byte counts in the
  order of its keys. The sort is stable and descending in the byte count.
\<close>

definition detectFromGitHubAPI :: "(string \<times> int) list option \<Rightarrow> LanguageDetection option" where
  "detectFromGitHubAPI response =
     (case response of
        None \<Rightarrow> None
      | Some languages \<Rightarrow>
          (let totalBytes = sum_list (map snd languages) in
           if totalBytes = 0 then None
           else (case sort_key (\<lambda>entry. - snd entry) languages of
                   [] \<Rightarrow> None
                 | (primaryLanguage, primaryBytes) # _ \<Rightarrow>
                     Some \<lparr> language = mapGitHubLanguageToId primaryLanguage,
                            confidence = binary64 (of_int primaryBytes / of_int totalBytes),
                            detectionMethod = GithubApi,
                            languageStats = Some languages,
                            detectedManifestFiles = None \<rparr>)))"

definition blobPaths :: "GitHubTreeItem list \<Rightarrow> string list" where
  "blobPaths tree = map item_path (filter (\<lambda>item. item_type item = ''blob'') tree)"

text \<open>\<open>detectFromManifests\<close>: pairs (language, file) in catalogue order, the first one wins.\<close>

definition manifestsOf :: "string list \<Rightarrow> LanguageConfig \<Rightarrow> (string \<times> string) list" where
  "manifestsOf filePaths config =
     concat (map (\<lambda>manifestFile.
       if toLowerCase manifestFile \<in> set filePaths then [(id' config, manifestFile)] else [])
       (manifestFiles config))"

definition detectedManifests :: "GitHubTreeItem list \<Rightarrow> (string \<times> string) list" where
  "detectedManifests tree =
     (let filePaths = map toLowerCase (blobPaths tree) in
      concat (map (manifestsOf filePaths) LANGUAGE_CONFIGS))"

definition detectFromManifests :: "GitHubTreeItem list \<Rightarrow> LanguageDetection option" where
  "detectFromManifests tree =
     (case detectedManifests tree of
        [] \<Rightarrow> None
      | primaryManifest # _ \<Rightarrow>
          Some \<lparr> language = Str (fst primaryManifest),
                 confidence = 8 / 10,
                 detectionMethod = Manifest,
                 languageStats = None,
                 detectedManifestFiles = Some (map snd (detectedManifests tree)) \<rparr>)"

text \<open>
  \<open>getExtension\<close>, the pattern \<open>/(\.[^/.]+)$/\<close>: the text from the last dot on, when at
  least one character follows that dot and none of them is a slash.
\<close>

definition getExtension :: "string \<Rightarrow> string option" where
  "getExtension path =
     (let suffix = rev (takeWhile (\<lambda>c. c \<noteq> CHR ''.'') (rev path)) in
      if CHR ''.'' \<in> set path \<and> suffix \<noteq> [] \<and> CHR ''/'' \<notin> set suffix
      then Some (CHR ''.'' # suffix)
      else None)"

definition findLanguageByExtension :: "string \<Rightarrow> string option" where
  "findLanguageByExtension extension =
     map_option id' (List.find (\<lambda>config. extension \<in> set (extensions config)) LANGUAGE_CONFIGS)"

text \<open>
  A counting table \<open>Record<string, number>\<close> keeps its keys in insertion order;
  \<open>counts[k] = (counts[k] || 0) + n\<close> is \<open>bump\<close>. The keys are extensions, which begin
  with a dot, and identifiers of the catalogue: none of them is a name that an object
  inherits.
\<close>

definition bump :: "string \<Rightarrow> nat \<Rightarrow> (string \<times> nat) list \<Rightarrow> (string \<times> nat) list" where
  "bump k n counts =
     AList.update k ((case map_of counts k of Some c \<Rightarrow> c | None \<Rightarrow> 0) + n) counts"

definition countExtension :: "GitHubTreeItem \<Rightarrow> (string \<times> nat) list \<Rightarrow> (string \<times> nat) list" where
  "countExtension item counts =
     (if item_type item \<noteq> ''blob'' then counts
      else (case getExtension (item_path item) of
              Some ext \<Rightarrow> bump ext 1 counts
            | None \<Rightarrow> counts))"

definition extensionCounts :: "GitHubTreeItem list \<Rightarrow> (string \<times> nat) list" where
  "extensionCounts tree = fold countExtension tree []"

definition countLanguage :: "string \<times> nat \<Rightarrow> (string \<times> nat) list \<Rightarrow> (string \<times> nat) list" where
  "countLanguage entry counts =
     (case findLanguageByExtension (fst entry) of
        Some languageId \<Rightarrow> bump languageId (snd entry) counts
      | None \<Rightarrow> counts)"

definition languageCounts :: "GitHubTreeItem list \<Rightarrow> (string \<times> nat) list" where
  "languageCounts tree = fold countLanguage (extensionCounts tree) []"

definition detectFromExtensions :: "GitHubTreeItem list \<Rightarrow> LanguageDetection option" where
  "detectFromExtensions tree =
     (case sort_key (\<lambda>entry. - int (snd entry)) (languageCounts tree) of
        [] \<Rightarrow> None
      | (primaryLanguage, primaryCount) # _ \<Rightarrow>
          Some \<lparr> language = Str primaryLanguage,
                 confidence =
                   binary64 (of_nat primaryCount / of_nat (sum_list (map snd (languageCounts tree)))),
                 detectionMethod = Extension,
                 languageStats = None,
                 detectedManifestFiles = None \<rparr>)"

definition defaultDetection :: LanguageDetection where
  "defaultDetection =
     \<lparr> language = Str ''javascript'', confidence = 3 / 10, detectionMethod = Manual,
       languageStats = None, detectedManifestFiles = None \<rparr>"

text \<open>
  \<open>detectLanguage\<close>: the host's answer, then manifests, then extensions, then the default.
  The listing is optional.
\<close>

definition detectLanguage ::
    "(string \<times> int) list option \<Rightarrow> GitHubTreeItem list option \<Rightarrow> LanguageDetection" where
  "detectLanguage response tree =
     (case detectFromGitHubAPI response of
        Some detection \<Rightarrow> detection
      | None \<Rightarrow>
          (case tree of
             None \<Rightarrow> defaultDetection
           | Some t \<Rightarrow>
               (case detectFromManifests t of
                  Some detection \<Rightarrow> detection
                | None \<Rightarrow>
                    (case detectFromExtensions t of
                       Some detection \<Rightarrow> detection
                     | None \<Rightarrow> defaultDetection))))"

text \<open>
  The route's choice (route.ts, lines 117 to 126): a non-empty \<open>lang\<close> parameter replaces
  detection.
\<close>

definition manualDetection :: "string \<Rightarrow> LanguageDetection" where
  "manualDetection manualLanguage =
     \<lparr> language = Str (toLowerCase manualLanguage), confidence = 1, detectionMethod = Manual,
       languageStats = None, detectedManifestFiles = None \<rparr>"

definition languageDetection ::
    "string option \<Rightarrow> (string \<times> int) list option \<Rightarrow> GitHubTreeItem list \<Rightarrow> LanguageDetection" where
  "languageDetection manualLanguage response tree =
     (case manualLanguage of
        None \<Rightarrow> detectLanguage response (Some tree)
      | Some l \<Rightarrow> if l = [] then detectLanguage response (Some tree) else manualDetection l)"

section \<open>Text patterns\<close>

text \<open>
  The parsers find import statements with regular expressions. The patterns they use are
  written in the following syntax, and matched by backtracking with continuations, the way
  the language standard defines matching: alternatives left to right, repetition greedy.
  \<open>Grp\<close> is capture group 1, \<open>Bol\<close> and \<open>Eol\<close> are \<open>^\<close> and \<open>$\<close> under the
  \<open>m\<close> flag. A repetition gives up an iteration that consumed nothing, so it runs at most
  once per remaining character.
\<close>

datatype catom = Ch char | WordC | SpaceC

datatype regex =
    Lit string
  | Cls bool "catom list"
  | Seq regex regex
  | Alt regex regex
  | Star regex
  | Plus regex
  | Opt regex
  | Grp regex
  | Bol
  | Eol

text \<open>A position in the input: the character before it, the text after it, and group 1.\<close>

record mstate =
  prev :: "char option"
  rest :: string
  cap :: "string option"

definition isWordChar :: "char \<Rightarrow> bool" where
  "isWordChar c =
     (c \<in> set ''abcdefghijklmnopqrstuvwxyzABCDEFGHIJKLMNOPQRSTUVWXYZ0123456789_'')"

definition isSpaceChar :: "char \<Rightarrow> bool" where
  "isSpaceChar c = (c \<in> set [CHR 0x09, CHR 0x0A, CHR 0x0B, CHR 0x0C, CHR 0x0D, CHR '' ''])"

definition isLineTerminator :: "char \<Rightarrow> bool" where
  "isLineTerminator c = (c = CHR 0x0A \<or> c = CHR 0x0D)"

fun inAtom :: "catom \<Rightarrow> char \<Rightarrow> bool" where
  "inAtom (Ch d) c = (c = d)"
| "inAtom WordC c = isWordChar c"
| "inAtom SpaceC c = isSpaceChar c"

type_synonym cont = "mstate \<Rightarrow> mstate option"

primrec repeat :: "nat \<Rightarrow> (mstate \<Rightarrow> cont \<Rightarrow> mstate option) \<Rightarrow> mstate \<Rightarrow> cont \<Rightarrow> mstate option" where
  "repeat 0 m st k = k st"
| "repeat (Suc n) m st k =
     (case m st (\<lambda>st'. if length (rest st') < length (rest st) then repeat n m st' k else None) of
        Some r \<Rightarrow> Some r
      | None \<Rightarrow> k st)"

primrec rmatch :: "regex \<Rightarrow> mstate \<Rightarrow> cont \<Rightarrow> mstate option" where
  "rmatch (Lit w) = (\<lambda>st k.
     if take (length w) (rest st) = w
     then k (st\<lparr>prev := (if w = [] then prev st else Some (last w)),
               rest := drop (length w) (rest st)\<rparr>)
     else None)"
| "rmatch (Cls neg atoms) = (\<lambda>st k.
     case rest st of
       [] \<Rightarrow> None
     | c # cs \<Rightarrow>
         if (\<exists>a \<in> set atoms. inAtom a c) \<noteq> neg then k (st\<lparr>prev := Some c, rest := cs\<rparr>)
         else None)"
| "rmatch (Seq a b) = (\<lambda>st k. rmatch a st (\<lambda>st'. rmatch b st' k))"
| "rmatch (Alt a b) = (\<lambda>st k. case rmatch a st k of Some r \<Rightarrow> Some r | None \<Rightarrow> rmatch b st k)"
| "rmatch (Star a) = (\<lambda>st k. repeat (length (rest st)) (rmatch a) st k)"
| "rmatch (Plus a) = (\<lambda>st k. rmatch a st (\<lambda>st'. repeat (length (rest st')) (rmatch a) st' k))"
| "rmatch (Opt a) = (\<lambda>st k. case rmatch a st k of Some r \<Rightarrow> Some r | None \<Rightarrow> k st)"
| "rmatch (Grp a) = (\<lambda>st k.
     rmatch a st
       (\<lambda>st'. k (st'\<lparr>cap := Some (take (length (rest st) - length (rest st')) (rest st))\<rparr>)))"
| "rmatch Bol = (\<lambda>st k.
     case prev st of None \<Rightarrow> k st | Some c \<Rightarrow> if isLineTerminator c then k st else None)"
| "rmatch Eol = (\<lambda>st k.
     case rest st of [] \<Rightarrow> k st | c # _ \<Rightarrow> if isLineTerminator c then k st else None)"

fun seqs :: "regex list \<Rightarrow> regex" where
  "seqs [] = Lit []"
| "seqs [r] = r"
| "seqs (r # rs) = Seq r (seqs rs)"

text \<open>\<open>re.exec\<close>: the leftmost match at or after the current position.\<close>

fun search :: "regex \<Rightarrow> char option \<Rightarrow> string \<Rightarrow> mstate option" where
  "search r p [] = rmatch r \<lparr>prev = p, rest = [], cap = None\<rparr> Some"
| "search r p (c # cs) =
     (case rmatch r \<lparr>prev = p, rest = c # cs, cap = None\<rparr> Some of
        Some st \<Rightarrow> Some st
      | None \<Rightarrow> search r (Some c) cs)"

text \<open>
  The loop \<open>while ((match = re.exec(content)) !== null)\<close> under the \<open>g\<close> flag: group 1
  of every match, each search starting where the last match ended. The loop goes on only
  after a match that consumed text; the patterns below all start with a keyword, so their
  matches always do (\<open>execAll_unfold\<close>).
\<close>

function execAll :: "regex \<Rightarrow> char option \<Rightarrow> string \<Rightarrow> string option list" where
  "execAll r p s =
     (case search r p s of
        None \<Rightarrow> []
      | Some st \<Rightarrow>
          if length (rest st) < length s then cap st # execAll r (prev st) (rest st) else [])"
  by pat_completeness auto
termination
  by (relation "measure (\<lambda>(r, p, s). length s)") auto

definition sp :: regex where "sp = Cls False [SpaceC]"
definition wd :: regex where "wd = Cls False [WordC]"
definition quote :: regex where "quote = Cls False [Ch (CHR 0x22), Ch (CHR 0x27)]"
definition unquoted :: regex where "unquoted = Cls True [Ch (CHR 0x22), Ch (CHR 0x27)]"

declare execAll.simps [simp del]

text \<open>The patterns that can match the empty text; every other pattern consumes text.\<close>

fun nullable :: "regex \<Rightarrow> bool" where
  "nullable (Lit w) = (w = [])"
| "nullable (Cls neg atoms) = False"
| "nullable (Seq a b) = (nullable a \<and> nullable b)"
| "nullable (Alt a b) = (nullable a \<or> nullable b)"
| "nullable (Star a) = True"
| "nullable (Plus a) = nullable a"
| "nullable (Opt a) = True"
| "nullable (Grp a) = nullable a"
| "nullable Bol = True"
| "nullable Eol = True"

section \<open>Import parsers\<close>

text \<open>
  \<open>getFileType\<close> is the same in both parsers: the first category, in the order of the
  profile, one of whose patterns occurs in the path.
\<close>

definition getFileTypeOf :: "(string \<times> string list) list \<Rightarrow> string \<Rightarrow> string" where
  "getFileTypeOf types path =
     (case List.find (\<lambda>(type, patterns). \<exists>pattern \<in> set patterns. includes_str path pattern) types of
        Some (type, patterns) \<Rightarrow> type
      | None \<Rightarrow> ''other'')"

text \<open>Removing one of several endings, for the patterns \<open>/\.(tsx?|jsx?|mjs|cjs)$/\<close>,
  \<open>/\.py$/\<close> and \<open>/\.pyi?$/\<close>: no two of the endings of one pattern end the same text.\<close>

definition stripSuffix :: "string list \<Rightarrow> string \<Rightarrow> string" where
  "stripSuffix sufs s =
     (case List.find (endsWith s) sufs of
        Some suf \<Rightarrow> take (length s - length suf) s
      | None \<Rightarrow> s)"

text \<open>An optional string in a condition: \<open>null\<close> and the empty string count as false.\<close>

definition truthy :: "string option \<Rightarrow> bool" where
  "truthy r = (case r of Some s \<Rightarrow> s \<noteq> [] | None \<Rightarrow> False)"

subsection \<open>JavaScript/TypeScript (javascript-parser.ts)\<close>

definition js_binding :: regex where
  "js_binding =
     Alt (seqs [Lit ''{'', Star (Cls True [Ch CHR ''}'']), Lit ''}''])
       (Alt (seqs [Lit ''*'', Plus sp, Lit ''as'', Plus sp, Plus wd]) (Plus wd))"

definition importRegex :: regex where
  "importRegex =
     seqs [Alt (Lit ''import'') (Lit ''export''), Plus sp,
           Opt (seqs [js_binding, Star (seqs [Star sp, Lit '','', Star sp, js_binding]), Plus sp,
                      Lit ''from'', Plus sp]),
           quote, Grp (Plus unquoted), quote]"

definition dynamicImportRegex :: regex where
  "dynamicImportRegex =
     seqs [Lit ''import'', Star sp, Lit ''('', Star sp, quote, Grp (Plus unquoted), quote,
           Star sp, Lit '')'']"

definition js_isInternalImport :: "string \<Rightarrow> string \<Rightarrow> bool" where
  "js_isInternalImport importPath currentPath =
     (if startsWith importPath ''.'' then True
      else if startsWith importPath ''@/'' \<or> startsWith importPath ''~/'' then True
      else if includes_str currentPath ''packages/'' \<or> includes_str currentPath ''apps/'' then
        (case split CHR ''/'' importPath of
           [] \<Rightarrow> False
         | packageName # _ \<Rightarrow>
             \<not> startsWith packageName ''@'' \<and> packageName \<noteq> ''.'' \<and> packageName \<noteq> ''..'')
      else False)"

definition js_normalizePath :: "string \<Rightarrow> string \<Rightarrow> string" where
  "js_normalizePath currentDir relativePath =
     join ''/''
       (fold (\<lambda>part parts.
                if part = ''..'' then butlast parts
                else if part \<noteq> ''.'' then parts @ [part]
                else parts)
          (split CHR ''/'' relativePath)
          (filter (\<lambda>part. part \<noteq> []) (split CHR ''/'' currentDir)))"

text \<open>In the two alias branches the text starts with the alias, so replacing its first
  occurrence by nothing removes the first two characters.\<close>

definition js_resolveImportPath :: "string \<Rightarrow> string \<Rightarrow> string" where
  "js_resolveImportPath importPath currentPath =
     (if startsWith importPath ''@/'' then drop 2 importPath
      else if startsWith importPath ''~/'' then drop 2 importPath
      else if startsWith importPath ''./'' \<or> startsWith importPath ''../'' then
        js_normalizePath (join ''/'' (butlast (split CHR ''/'' currentPath))) importPath
      else if includes_str currentPath ''packages/'' \<or> includes_str currentPath ''apps/'' then
        ''packages/'' @ importPath
      else importPath)"

definition js_collect :: "string \<Rightarrow> string option list \<Rightarrow> string list" where
  "js_collect currentPath ms =
     concat (map (\<lambda>m. case m of
                        None \<Rightarrow> []
                      | Some importPath \<Rightarrow>
                          if js_isInternalImport importPath currentPath
                          then [js_resolveImportPath importPath currentPath]
                          else [])
               ms)"

definition js_parseImports :: "string \<Rightarrow> string \<Rightarrow> string list" where
  "js_parseImports content currentPath =
     js_collect currentPath (execAll importRegex None content)
     @ js_collect currentPath (execAll dynamicImportRegex None content)"

definition js_getFileType :: "string \<Rightarrow> string" where
  "js_getFileType path = getFileTypeOf (fileTypes javascriptConfig) path"

definition js_variations :: "string \<Rightarrow> string list" where
  "js_variations importPath =
     (let withoutExt =
            stripSuffix [''.tsx'', ''.ts'', ''.jsx'', ''.js'', ''.mjs'', ''.cjs''] importPath
      in [withoutExt @ ''.ts'', withoutExt @ ''.tsx'', withoutExt @ ''.js'', withoutExt @ ''.jsx'',
          withoutExt @ ''.mjs'', withoutExt @ ''.cjs'',
          withoutExt @ ''/index.ts'', withoutExt @ ''/index.tsx'', withoutExt @ ''/index.js'',
          withoutExt @ ''/index.jsx'', withoutExt @ ''/index.mjs'', withoutExt @ ''/index.cjs''])"

function js_matchImportToFile :: "string \<Rightarrow> string list \<Rightarrow> string option" where
  "js_matchImportToFile importPath availableFiles =
     (if importPath \<in> set availableFiles then Some importPath
      else (case List.find (\<lambda>variation. variation \<in> set availableFiles) (js_variations importPath) of
              Some variation \<Rightarrow> Some variation
            | None \<Rightarrow>
                (let result1 =
                       (if startsWith importPath ''packages/''
                        then js_matchImportToFile (drop 9 importPath) availableFiles
                        else None)
                 in if truthy result1 then result1
                    else (let result2 =
                                (if \<not> startsWith importPath ''apps/''
                                    \<and> \<not> startsWith importPath ''packages/''
                                 then js_matchImportToFile (''apps/'' @ importPath) availableFiles
                                 else None)
                          in if truthy result2 then result2 else None))))"
  by pat_completeness auto
termination
proof (relation "measure (\<lambda>(importPath, availableFiles).
        if startsWith importPath ''apps/'' then 0 else Suc (length importPath))")
  show "wf (measure (\<lambda>(importPath, availableFiles).
        if startsWith importPath ''apps/'' then 0 else Suc (length importPath)))"
    by simp
next
  fix importPath :: string and availableFiles :: "string list"
  assume "startsWith importPath ''packages/''"
  moreover have "length ''packages/'' = 9"
    by simp
  ultimately have p: "take 9 importPath = ''packages/''"
    by (simp only: startsWith_def)
  have "importPath = take 9 importPath @ drop 9 importPath"
    by simp
  with p have e: "importPath = ''packages/'' @ drop 9 importPath"
    by simp
  have "\<not> startsWith (''packages/'' @ drop 9 importPath) ''apps/''"
    by (simp add: startsWith_def)
  with e have n: "\<not> startsWith importPath ''apps/''"
    by simp
  have "length (''packages/'' @ drop 9 importPath) = 9 + length (drop 9 importPath)"
    by simp
  with e have l: "length importPath = 9 + length (drop 9 importPath)"
    by simp
  show "((drop 9 importPath, availableFiles), importPath, availableFiles)
        \<in> measure (\<lambda>(importPath, availableFiles).
            if startsWith importPath ''apps/'' then 0 else Suc (length importPath))"
    using n l by simp
next
  fix importPath :: string and availableFiles :: "string list"
  assume "\<not> startsWith importPath ''apps/'' \<and> \<not> startsWith importPath ''packages/''"
  then show "((''apps/'' @ importPath, availableFiles), importPath, availableFiles)
        \<in> measure (\<lambda>(importPath, availableFiles).
            if startsWith importPath ''apps/'' then 0 else Suc (length importPath))"
    by (simp add: startsWith_def)
qed

declare js_matchImportToFile.simps [simp del]

subsection \<open>Python (python-parser.ts)\<close>

definition dotted :: regex where "dotted = Cls False [WordC, Ch CHR ''.'']"

definition simpleImportRegex :: regex where
  "simpleImportRegex =
     seqs [Bol, Lit ''import'', Plus sp, Grp (Plus dotted),
           Opt (seqs [Plus sp, Lit ''as'', Plus sp, Plus wd]), Eol]"

definition fromImportRegex :: regex where
  "fromImportRegex =
     seqs [Bol, Lit ''from'', Plus sp, Grp (Plus dotted), Plus sp, Lit ''import'', Plus sp]"

definition relativeImportRegex :: regex where
  "relativeImportRegex =
     seqs [Bol, Lit ''from'', Plus sp, Grp (Seq (Plus (Lit ''.'')) (Star dotted)), Plus sp,
           Lit ''import'', Plus sp]"

definition dotsToSlashes :: "string \<Rightarrow> string" where
  "dotsToSlashes s = map (\<lambda>c. if c = CHR ''.'' then CHR ''/'' else c) s"

definition py_resolveImportPath :: "string \<Rightarrow> string \<Rightarrow> string option" where
  "py_resolveImportPath modulePath currentPath = Some (dotsToSlashes modulePath @ ''.py'')"

definition py_resolveRelativeImport :: "string \<Rightarrow> string \<Rightarrow> string option" where
  "py_resolveRelativeImport relativePath currentPath =
     (let dots = takeWhile (\<lambda>c. c = CHR ''.'') relativePath in
      if dots = [] then None
      else
        (let dotCount = length dots;
             modulePart = drop dotCount relativePath;
             currentDir = butlast (split CHR ''/'' currentPath);
             targetDir = slice0 currentDir (int (length currentDir) - (int dotCount - 1))
         in if targetDir = [] then None
            else if modulePart \<noteq> []
              then Some (join ''/'' targetDir @ ''/'' @ dotsToSlashes modulePart @ ''.py'')
              else Some (join ''/'' targetDir @ ''/__init__.py'')))"

definition stdLibModules :: "string list" where
  "stdLibModules =
     [''os'', ''sys'', ''re'', ''json'', ''math'', ''time'', ''datetime'', ''collections'',
      ''itertools'', ''functools'', ''pathlib'', ''typing'', ''asyncio'', ''urllib'', ''http'',
      ''logging'', ''unittest'', ''pytest'', ''abc'', ''io'', ''csv'', ''random'', ''string'',
      ''copy'', ''pickle'', ''subprocess'', ''threading'', ''multiprocessing'']"

definition commonPackages :: "string list" where
  "commonPackages =
     [''django'', ''flask'', ''fastapi'', ''requests'', ''numpy'', ''pandas'', ''sqlalchemy'',
      ''pydantic'', ''pytest'', ''click'', ''boto3'', ''celery'', ''redis'']"

definition py_isExternalModule :: "string \<Rightarrow> bool" where
  "py_isExternalModule modulePath =
     (case split CHR ''.'' modulePath of
        [] \<Rightarrow> False
      | topLevelModule # _ \<Rightarrow>
          topLevelModule \<in> set stdLibModules \<or> topLevelModule \<in> set commonPackages)"

definition py_collectAbsolute :: "string \<Rightarrow> string option list \<Rightarrow> string list" where
  "py_collectAbsolute currentPath ms =
     concat (map (\<lambda>m. case m of
                        None \<Rightarrow> []
                      | Some modulePath \<Rightarrow>
                          if py_isExternalModule modulePath then []
                          else (case py_resolveImportPath modulePath currentPath of
                                  None \<Rightarrow> []
                                | Some resolvedPath \<Rightarrow>
                                    if resolvedPath \<noteq> [] then [resolvedPath] else []))
               ms)"

definition py_collectRelative :: "string \<Rightarrow> string option list \<Rightarrow> string list" where
  "py_collectRelative currentPath ms =
     concat (map (\<lambda>m. case m of
                        None \<Rightarrow> []
                      | Some relativePath \<Rightarrow>
                          (case py_resolveRelativeImport relativePath currentPath of
                             None \<Rightarrow> []
                           | Some resolvedPath \<Rightarrow>
                               if resolvedPath \<noteq> [] then [resolvedPath] else []))
               ms)"

definition py_parseImports :: "string \<Rightarrow> string \<Rightarrow> string list" where
  "py_parseImports content currentPath =
     py_collectAbsolute currentPath (execAll simpleImportRegex None content)
     @ py_collectAbsolute currentPath (execAll fromImportRegex None content)
     @ py_collectRelative currentPath (execAll relativeImportRegex None content)"

definition py_getFileType :: "string \<Rightarrow> string" where
  "py_getFileType path = getFileTypeOf (fileTypes pythonConfig) path"

definition py_matchImportToFile :: "string \<Rightarrow> string list \<Rightarrow> string option" where
  "py_matchImportToFile importPath availableFiles =
     (if importPath \<in> set availableFiles then Some importPath
      else if \<not> endsWith importPath ''.py'' \<and> importPath @ ''.py'' \<in> set availableFiles
        then Some (importPath @ ''.py'')
      else
        (let asPackage = stripSuffix [''.py''] importPath @ ''/__init__.py'' in
         if asPackage \<in> set availableFiles then Some asPackage
         else
           (let withoutExt = stripSuffix [''.pyi'', ''.py''] importPath in
            List.find (\<lambda>variation. variation \<in> set availableFiles)
              [withoutExt @ ''.py'', withoutExt @ ''.pyi'', withoutExt @ ''/__init__.py''])))"

section \<open>Parser registry (parser-registry.ts)\<close>

text \<open>The \<open>LanguageParser\<close> interface; \<open>matchImportToFile\<close> is a method a parser may lack.\<close>

record LanguageParser =
  p_name :: string
  p_extensions :: "string list"
  p_excludePatterns :: "string list"
  parseImports :: "string \<Rightarrow> string \<Rightarrow> string list"
  getFileType :: "string \<Rightarrow> string"
  matchImportToFile :: "(string \<Rightarrow> string list \<Rightarrow> string option) option"

definition jsParser :: LanguageParser where
  "jsParser =
     \<lparr> p_name = ''JavaScript/TypeScript'',
       p_extensions = extensions javascriptConfig,
       p_excludePatterns = excludePatterns javascriptConfig,
       parseImports = js_parseImports,
       getFileType = js_getFileType,
       matchImportToFile = Some js_matchImportToFile \<rparr>"

definition pyParser :: LanguageParser where
  "pyParser =
     \<lparr> p_name = ''Python'',
       p_extensions = extensions pythonConfig,
       p_excludePatterns = excludePatterns pythonConfig,
       parseImports = py_parseImports,
       getFileType = py_getFileType,
       matchImportToFile = Some py_matchImportToFile \<rparr>"

definition parsers :: "string \<rightharpoonup> LanguageParser" where
  "parsers =
     map_of [(''javascript'', jsParser), (''typescript'', jsParser), (''js'', jsParser),
             (''ts'', jsParser), (''jsx'', jsParser), (''tsx'', jsParser),
             (''python'', pyParser), (''py'', pyParser)]"

definition getParser :: "string \<Rightarrow> LanguageParser" where
  "getParser languageId =
     (case parsers (toLowerCase languageId) of
        Some parser \<Rightarrow> parser
      | None \<Rightarrow> jsParser)"

definition hasParser :: "string \<Rightarrow> bool" where
  "hasParser languageId = (parsers (toLowerCase languageId) \<noteq> None)"

section \<open>Graph builder (app/api/dependencies/route.ts)\<close>

record FileNode =
  path :: string
  type :: string
  imports' :: "string list"
  importedBy :: "string list"

text \<open>The graph payload: the nodes and the edges as (source, target) pairs.\<close>

record DependencyGraph =
  nodes :: "FileNode list"
  edges :: "(string \<times> string) list"

text \<open>
  Lines 137 to 155. The extension pattern is the alternation of the parser's extensions
  anchored at the end, so it accepts the paths that end with one of them; at most 200 of
  the accepted entries are kept, in the order of the listing.
\<close>

definition extensionPattern_test :: "LanguageParser \<Rightarrow> string \<Rightarrow> bool" where
  "extensionPattern_test parser p = (\<exists>ext \<in> set (p_extensions parser). endsWith p ext)"

definition isCodeFile :: "LanguageParser \<Rightarrow> GitHubTreeItem \<Rightarrow> bool" where
  "isCodeFile parser item =
     (if item_type item \<noteq> ''blob'' then False
      else if \<not> extensionPattern_test parser (item_path item) then False
      else if \<exists>pattern \<in> set (p_excludePatterns parser). includes_str (item_path item) pattern
        then False
      else True)"

definition codeFiles :: "LanguageParser \<Rightarrow> GitHubTreeItem list \<Rightarrow> GitHubTreeItem list" where
  "codeFiles parser tree = take 200 (filter (isCodeFile parser) tree)"

text \<open>
  Lines 165 to 194. Fetching a path gives \<open>None\<close> when the request fails, otherwise the
  size and the text; a failed or too large file keeps its entry with empty content.
\<close>

definition fileContents ::
    "(string \<Rightarrow> (nat \<times> string) option) \<Rightarrow> GitHubTreeItem list \<Rightarrow> (string \<times> string) list" where
  "fileContents fetch files =
     map (\<lambda>file.
            case fetch (item_path file) of
              Some (bytes, content) \<Rightarrow>
                if bytes < 50000 then (item_path file, content) else (item_path file, [])
            | None \<Rightarrow> (item_path file, []))
       files"

text \<open>
  Lines 206 to 217. The node table is a \<open>Map\<close>: keys in insertion order, a second
  \<open>set\<close> of a key replaces the value in place.
\<close>

definition initNodes :: "LanguageParser \<Rightarrow> (string \<times> string) list \<Rightarrow> (string \<times> FileNode) list" where
  "initNodes parser files =
     fold (\<lambda>file table.
             AList.update (fst file)
               \<lparr> path = fst file, type = getFileType parser (fst file),
                 imports' = [], importedBy = [] \<rparr>
               table)
       files []"

text \<open>Lines 232 to 240: the parser's own matcher when it has one, else equality.\<close>

definition matchingPath :: "LanguageParser \<Rightarrow> string \<Rightarrow> string list \<Rightarrow> string option" where
  "matchingPath parser importPath availableFilePaths =
     (case matchImportToFile parser of
        Some matcher \<Rightarrow> matcher importPath availableFilePaths
      | None \<Rightarrow> List.find (\<lambda>p. p = importPath) availableFilePaths)"

text \<open>
  Lines 242 to 249, for one import of the file \<open>filePath\<close>: the node objects are changed in
  place, first the source's, then the target's when the table has it.
\<close>

definition addImport ::
    "LanguageParser \<Rightarrow> string list \<Rightarrow> string \<Rightarrow> string
      \<Rightarrow> (string \<times> FileNode) list \<times> (string \<times> string) list
      \<Rightarrow> (string \<times> FileNode) list \<times> (string \<times> string) list" where
  "addImport parser availableFilePaths filePath importPath state =
     (case matchingPath parser importPath availableFilePaths of
        None \<Rightarrow> state
      | Some target \<Rightarrow>
          if target = [] then state
          else
            (let table1 =
                   AList.map_entry filePath (\<lambda>node. node\<lparr>imports' := imports' node @ [target]\<rparr>)
                     (fst state);
                 table2 =
                   (case map_of table1 target of
                      Some targetNode \<Rightarrow>
                        AList.map_entry target
                          (\<lambda>node. node\<lparr>importedBy := importedBy node @ [filePath]\<rparr>) table1
                    | None \<Rightarrow> table1)
             in (table2, snd state @ [(filePath, target)])))"

text \<open>Lines 223 to 252, for one file.\<close>

definition processFile ::
    "LanguageParser \<Rightarrow> string list \<Rightarrow> string \<times> string
      \<Rightarrow> (string \<times> FileNode) list \<times> (string \<times> string) list
      \<Rightarrow> (string \<times> FileNode) list \<times> (string \<times> string) list" where
  "processFile parser availableFilePaths file state =
     (if snd file = [] then state
      else
        (case map_of (fst state) (fst file) of
           None \<Rightarrow> state
         | Some node \<Rightarrow>
             fold (addImport parser availableFilePaths (fst file))
               (parseImports parser (snd file) (fst file)) state))"

definition buildGraph :: "LanguageParser \<Rightarrow> (string \<times> string) list \<Rightarrow> DependencyGraph" where
  "buildGraph parser files =
     (let table0 = initNodes parser files;
          availableFilePaths = map fst table0;
          final = fold (processFile parser availableFilePaths) files (table0, [])
      in \<lparr> nodes = map snd (fst final), edges = snd final \<rparr>)"

text \<open>From the listing to the graph, for the parser that was chosen.\<close>

definition dependencyGraph ::
    "LanguageParser \<Rightarrow> (string \<Rightarrow> (nat \<times> string) option) \<Rightarrow> GitHubTreeItem list \<Rightarrow> DependencyGraph" where
  "dependencyGraph parser fetch tree = buildGraph parser (fileContents fetch (codeFiles parser tree))"

section \<open>Notions used in the statements\<close>

text \<open>
  A manifest of the profile appears in the list of file paths, compared without regard to
  letter case.
\<close>

definition manifestPresent :: "LanguageConfig \<Rightarrow> GitHubTreeItem list \<Rightarrow> bool" where
  "manifestPresent config tree =
     (\<exists>manifestFile \<in> set (manifestFiles config).
        toLowerCase manifestFile \<in> set (map toLowerCase (blobPaths tree)))"

text \<open>Some file of the listing has an extension that belongs to a profile.\<close>

definition extensionKnown :: "GitHubTreeItem list \<Rightarrow> bool" where
  "extensionKnown tree =
     (\<exists>p \<in> set (blobPaths tree).
        case getExtension p of
          None \<Rightarrow> False
        | Some ext \<Rightarrow> findLanguageByExtension ext \<noteq> None)"

definition blobExtensions :: "GitHubTreeItem list \<Rightarrow> string set" where
  "blobExtensions tree = {ext. \<exists>p \<in> set (blobPaths tree). getExtension p = Some ext}"

text \<open>
  What one import, and one file, add to the graph: the targets of the imports that match a
  known path.
\<close>

definition matched :: "LanguageParser \<Rightarrow> string list \<Rightarrow> string \<Rightarrow> string list" where
  "matched parser availableFilePaths importPath =
     (case matchingPath parser importPath availableFilePaths of
        None \<Rightarrow> []
      | Some target \<Rightarrow> if target = [] then [] else [target])"

definition fileTargets :: "LanguageParser \<Rightarrow> string list \<Rightarrow> string \<times> string \<Rightarrow> string list" where
  "fileTargets parser availableFilePaths file =
     (if snd file = [] then []
      else concat (map (matched parser availableFilePaths)
                     (parseImports parser (snd file) (fst file))))"

definition fileEdges ::
    "LanguageParser \<Rightarrow> string list \<Rightarrow> string \<times> string \<Rightarrow> (string \<times> string) list" where
  "fileEdges parser availableFilePaths file =
     map (Pair (fst file)) (fileTargets parser availableFilePaths file)"

text \<open>Linking a source to a target: both node objects and the edge list.\<close>

definition link ::
    "string \<Rightarrow> string \<Rightarrow> (string \<times> FileNode) list \<times> (string \<times> string) list
      \<Rightarrow> (string \<times> FileNode) list \<times> (string \<times> string) list" where
  "link source target state =
     (AList.map_entry target (\<lambda>node. node\<lparr>importedBy := importedBy node @ [source]\<rparr>)
        (AList.map_entry source (\<lambda>node. node\<lparr>imports' := imports' node @ [target]\<rparr>)
           (fst state)),
      snd state @ [(source, target)])"

text \<open>
  The state of the build is consistent: every node of the table carries its key as path,
  the category of that path, and the edge lists of exactly the edges recorded so far.
\<close>

definition consistent ::
    "LanguageParser \<Rightarrow> (string \<times> FileNode) list \<times> (string \<times> string) list \<Rightarrow> bool" where
  "consistent parser state =
     (\<forall>k n. map_of (fst state) k = Some n \<longrightarrow>
        path n = k \<and> type n = getFileType parser k
        \<and> set (imports' n) = {t. (k, t) \<in> set (snd state)}
        \<and> set (importedBy n) = {s. (s, k) \<in> set (snd state)})"

text \<open>
  A position inside a line with no line end after it: no pattern that begins with \<open>^\<close>
  matches from there on.
\<close>

definition midLine :: "mstate \<Rightarrow> bool" where
  "midLine st =
     ((case prev st of None \<Rightarrow> False | Some c \<Rightarrow> \<not> isLineTerminator c)
      \<and> (\<forall>c \<in> set (rest st). \<not> isLineTerminator c))"

text \<open>A graph as sets: the edge lists of a node without order and multiplicity.\<close>

definition nodeSet :: "DependencyGraph \<Rightarrow> (string \<times> string \<times> string set \<times> string set) set" where
  "nodeSet g = (\<lambda>n. (path n, type n, set (imports' n), set (importedBy n))) ` set (nodes g)"

definition edgeSet :: "DependencyGraph \<Rightarrow> (string \<times> string) set" where
  "edgeSet g = set (edges g)"

section \<open>Concrete inputs\<close>

definition goModTree :: "GitHubTreeItem list" where
  "goModTree = [\<lparr>item_path = ''go.mod'', item_type = ''blob'', item_sha = []\<rparr>]"

definition gemfileTree :: "GitHubTreeItem list" where
  "gemfileTree = [\<lparr>item_path = ''Gemfile'', item_type = ''blob'', item_sha = []\<rparr>]"

definition readmeTree :: "GitHubTreeItem list" where
  "readmeTree = [\<lparr>item_path = ''README.md'', item_type = ''blob'', item_sha = []\<rparr>]"

text \<open>Small Python packages: the file contents of the builds that are evaluated below.\<close>

definition siblingImportFiles :: "(string \<times> string) list" where
  "siblingImportFiles =
     [(''pkg/mod.py'', ''from . import sibling''), (''pkg/sibling.py'', ''x = 1'')]"

definition siblingImportInitFiles :: "(string \<times> string) list" where
  "siblingImportInitFiles =
     [(''pkg/mod.py'', ''from . import sibling''), (''pkg/sibling.py'', ''x = 1''),
      (''pkg/__init__.py'', [])]"

text \<open>The same two builds for whatever is written after \<open>import\<close>.\<close>

definition importNameFiles :: "string \<Rightarrow> (string \<times> string) list" where
  "importNameFiles name =
     [(''pkg/mod.py'', ''from . import '' @ name), (''pkg/sibling.py'', ''x = 1'')]"

definition importNameInitFiles :: "string \<Rightarrow> (string \<times> string) list" where
  "importNameInitFiles name =
     [(''pkg/mod.py'', ''from . import '' @ name), (''pkg/sibling.py'', ''x = 1''),
      (''pkg/__init__.py'', [])]"

definition moduleImportFiles :: "(string \<times> string) list" where
  "moduleImportFiles =
     [(''pkg/mod.py'', ''from .sibling import x''), (''pkg/sibling.py'', ''x = 1'')]"

section \<open>Registry lookup\<close>

lemmas config_defs = LANGUAGE_CONFIGS_def javascriptConfig_def pythonConfig_def goConfig_def
  rustConfig_def javaConfig_def cppConfig_def rubyConfig_def phpConfig_def

lemma configs_kotlin: "configs ''kotlin'' = None"
  by code_simp

lemma configs_python: "configs ''python'' = Some pythonConfig"
  by code_simp

text \<open>The detector's lookup \<open>getConfig\<close> does not depend on letter case.\<close>

lemma getConfig_case_insensitive:
  "toLowerCase s' = toLowerCase s \<Longrightarrow> getConfig s' = getConfig s"
  by (simp add: getConfig_def)

text \<open>
  C8. Registry lookup is meant to ignore letter case. \<open>getLanguageConfig\<close> lowers the
  argument for the alias comparison only: the identifier is compared as given, so
  \<open>Python\<close> is not found although \<open>python\<close> and the alias \<open>PY\<close> are, and although the
  detector's \<open>getConfig\<close> finds \<open>Python\<close>.
\<close>

theorem getLanguageConfig_identifier_case:
  "getLanguageConfig ''python'' = Some pythonConfig
   \<and> getLanguageConfig ''Python'' = None
   \<and> getLanguageConfig ''PY'' = Some pythonConfig
   \<and> getConfig ''Python'' = Some pythonConfig"
  by code_simp

section \<open>Language detection\<close>

lemma tagged_hd:
  "\<exists>m\<in>set ms. P m \<Longrightarrow> \<exists>m rest. concat (map (\<lambda>m. if P m then [(i, m)] else []) ms) = (i, m) # rest"
  by (induction ms) auto

lemma tagged_nil:
  "\<not> (\<exists>m\<in>set ms. P m) \<Longrightarrow> concat (map (\<lambda>m. if P m then [(i, m)] else []) ms) = []"
  by (induction ms) auto

lemma manifestsOf_present:
  "manifestPresent c tree \<Longrightarrow>
   \<exists>m rest. manifestsOf (map toLowerCase (blobPaths tree)) c = (id' c, m) # rest"
  unfolding manifestPresent_def manifestsOf_def by (rule tagged_hd)

lemma manifestsOf_absent:
  "\<not> manifestPresent c tree \<Longrightarrow> manifestsOf (map toLowerCase (blobPaths tree)) c = []"
  unfolding manifestPresent_def manifestsOf_def by (rule tagged_nil)

lemma detectedManifests_first:
  "List.find (\<lambda>c. manifestPresent c tree) cs = Some c \<Longrightarrow>
   \<exists>m rest. concat (map (manifestsOf (map toLowerCase (blobPaths tree))) cs) = (id' c, m) # rest"
proof (induction cs)
  case Nil
  then show ?case by simp
next
  case (Cons x cs)
  show ?case
  proof (cases "manifestPresent x tree")
    case True
    with Cons.prems have "x = c" by simp
    with True manifestsOf_present [of c tree] show ?thesis by auto
  next
    case False
    with Cons.prems have "List.find (\<lambda>c. manifestPresent c tree) cs = Some c"
      by simp
    with Cons.IH False show ?thesis by (simp add: manifestsOf_absent)
  qed
qed

lemma detectFromManifests_first:
  assumes "List.find (\<lambda>c. manifestPresent c tree) LANGUAGE_CONFIGS = Some c"
  shows "\<exists>d. detectFromManifests tree = Some d \<and> language d = Str (id' c)
     \<and> detectionMethod d = Manifest \<and> confidence d = 8 / 10"
proof -
  from detectedManifests_first [OF assms] obtain m rest
    where "detectedManifests tree = (id' c, m) # rest"
    by (auto simp: detectedManifests_def)
  then show ?thesis by (simp add: detectFromManifests_def)
qed

lemma detectedManifests_none:
  "\<forall>c \<in> set cs. \<not> manifestPresent c tree \<Longrightarrow>
   concat (map (manifestsOf (map toLowerCase (blobPaths tree))) cs) = []"
  by (induction cs) (simp_all add: manifestsOf_absent)

lemma detectFromManifests_none:
  assumes "\<forall>c \<in> set LANGUAGE_CONFIGS. \<not> manifestPresent c tree"
  shows "detectFromManifests tree = None"
proof -
  have "detectedManifests tree = []"
    unfolding detectedManifests_def Let_def by (rule detectedManifests_none [OF assms])
  then show ?thesis by (simp add: detectFromManifests_def)
qed

lemma bump_keys: "fst ` set (bump k n counts) = insert k (fst ` set counts)"
  by (simp add: bump_def dom_update)

lemma blobExtensions_Cons:
  "blobExtensions [item] \<union> blobExtensions tree \<subseteq> blobExtensions (item # tree)"
  unfolding blobExtensions_def blobPaths_def by auto

lemma countExtension_keys:
  "fst ` set (countExtension item counts) \<subseteq> fst ` set counts \<union> blobExtensions [item]"
proof (cases "item_type item = ''blob''")
  case False
  then show ?thesis by (simp add: countExtension_def)
next
  case True
  show ?thesis
  proof (cases "getExtension (item_path item)")
    case None
    with True show ?thesis by (simp add: countExtension_def)
  next
    case (Some ext)
    with True have "ext \<in> blobExtensions [item]"
      by (simp add: blobExtensions_def blobPaths_def)
    moreover from True Some have "fst ` set (countExtension item counts) = insert ext (fst ` set counts)"
      by (simp add: countExtension_def bump_keys)
    ultimately show ?thesis by simp
  qed
qed

lemma extensionCounts_keys:
  "fst ` set (fold countExtension tree acc) \<subseteq> fst ` set acc \<union> blobExtensions tree"
proof (induction tree arbitrary: acc)
  case Nil
  then show ?case by simp
next
  case (Cons item tree)
  have a: "fst ` set (fold countExtension (item # tree) acc)
        \<subseteq> fst ` set (countExtension item acc) \<union> blobExtensions tree"
    using Cons.IH [of "countExtension item acc"] by simp
  from a blobExtensions_Cons [of item tree] countExtension_keys [of item acc] show ?case
    by blast
qed

lemma languageCounts_fold_none:
  "\<forall>entry \<in> set entries. findLanguageByExtension (fst entry) = None \<Longrightarrow>
   fold countLanguage entries acc = acc"
  by (induction entries arbitrary: acc) (simp_all add: countLanguage_def)

lemma detectFromExtensions_none:
  assumes "\<not> extensionKnown tree"
  shows "detectFromExtensions tree = None"
proof -
  have "\<forall>entry \<in> set (extensionCounts tree). findLanguageByExtension (fst entry) = None"
  proof
    fix entry assume "entry \<in> set (extensionCounts tree)"
    then have "fst entry \<in> fst ` set (extensionCounts tree)" by simp
    with extensionCounts_keys [of tree "[]"]
    have "fst entry \<in> blobExtensions tree"
      unfolding extensionCounts_def by auto
    then obtain p where p: "p \<in> set (blobPaths tree)" "getExtension p = Some (fst entry)"
      unfolding blobExtensions_def by blast
    show "findLanguageByExtension (fst entry) = None"
    proof (rule ccontr)
      assume "findLanguageByExtension (fst entry) \<noteq> None"
      with p have "extensionKnown tree"
        unfolding extensionKnown_def by (intro bexI [of _ p]) simp_all
      with assms show False by simp
    qed
  qed
  then have "languageCounts tree = []"
    unfolding languageCounts_def by (rule languageCounts_fold_none)
  then show ?thesis by (simp add: detectFromExtensions_def)
qed

lemma toLowerCase_kotlin: "toLowerCase ''Kotlin'' = ''kotlin''"
  by (simp add: toLowerCase_def toLowerChar_def)

lemma detectedManifests_goModTree: "detectedManifests goModTree = [(''go'', ''go.mod'')]"
  by code_simp

lemma detectFromManifests_goModTree:
  "detectFromManifests goModTree =
     Some \<lparr> language = Str ''go'', confidence = 8 / 10, detectionMethod = Manifest,
            languageStats = None, detectedManifestFiles = Some [''go.mod''] \<rparr>"
  by (simp add: detectFromManifests_def detectedManifests_goModTree)

lemma mappings_kotlin: "map_of mappings ''kotlin'' = None"
  by (simp add: mappings_def)

lemma property_kotlin: "property mappings ''kotlin'' = None"
  by (simp add: property_def mappings_kotlin inheritedNames_def)

text \<open>
  The two names free of capital letters that an object inherits are not kept as text: the
  manual table answers for them with the inherited property.
\<close>

lemma inherited_names_answered:
  "mapGitHubLanguageToId ''Constructor'' = Inherited ''constructor''"
  "mapGitHubLanguageToId ''__proto__'' = Inherited ''__proto__''"
  by code_simp+

text \<open>The share of 100 bytes in 150 is the floating-point number \<open>0.6666666666666666\<close>.\<close>

lemma share_rounded:
  "map_option confidence (detectFromGitHubAPI (Some [(''Java'', 50), (''Kotlin'', 100)]))
     = Some (6004799503160661 / 9007199254740992)"
  by code_simp

text \<open>
  C4 as stated fails: with byte counts \<open>Kotlin: 100\<close> from the host and a listing that holds
  \<open>go.mod\<close>, the name \<open>kotlin\<close> is in neither table, and still detection returns it, with
  the tag of the host method; the manifest method, which would answer \<open>go\<close>, is not reached.
\<close>

theorem unrecognized_name_returned:
  "configs (toLowerCase ''Kotlin'') = None
   \<and> map_of mappings (toLowerCase ''Kotlin'') = None
   \<and> language (detectLanguage (Some [(''Kotlin'', 100)]) (Some goModTree)) = Str ''kotlin''
   \<and> detectionMethod (detectLanguage (Some [(''Kotlin'', 100)]) (Some goModTree)) = GithubApi
   \<and> map_option language (detectFromManifests goModTree) = Some (Str ''go'')"
  by (simp add: detectLanguage_def detectFromGitHubAPI_def mapGitHubLanguageToId_def
      toLowerCase_kotlin configs_kotlin property_kotlin mappings_kotlin
      detectFromManifests_goModTree)

text \<open>
  C4, amended. When the host gives byte counts, none negative, whose total is not zero and
  below \<open>2^53\<close>, and the name with the largest count is in neither the registry nor the
  manual table and is not a name that the table inherits (\<open>constructor\<close>, \<open>__proto__\<close>),
  detection returns that name in lower case, with the tag of the host method, the host's
  counts, and as confidence the name's share of the bytes as floating-point division
  rounds it, whatever the listing holds: no later method is tried.
\<close>

theorem unrecognized_name_kept:
  assumes "\<forall>entry \<in> set languages. 0 \<le> snd entry"
    and "sum_list (map snd languages) < 2 ^ 53"
    and "sum_list (map snd languages) \<noteq> 0"
    and "sort_key (\<lambda>entry. - snd entry) languages = (name, bytes) # others"
    and "configs (toLowerCase name) = None"
    and "map_of mappings (toLowerCase name) = None"
    and "toLowerCase name \<notin> set inheritedNames"
  shows "language (detectLanguage (Some languages) tree) = Str (toLowerCase name)
    \<and> detectionMethod (detectLanguage (Some languages) tree) = GithubApi
    \<and> confidence (detectLanguage (Some languages) tree)
        = binary64 (of_int bytes / of_int (sum_list (map snd languages)))
    \<and> languageStats (detectLanguage (Some languages) tree) = Some languages
    \<and> detectedManifestFiles (detectLanguage (Some languages) tree) = None"
proof -
  from assms(6,7) have "property mappings (toLowerCase name) = None"
    by (simp add: property_def)
  with assms(5) have "mapGitHubLanguageToId name = Str (toLowerCase name)"
    by (simp add: mapGitHubLanguageToId_def)
  with assms(3,4) show ?thesis
    by (simp add: detectLanguage_def detectFromGitHubAPI_def)
qed

theorem unrecognized_name_kept_witness:
  "list_all (\<lambda>entry. 0 \<le> snd entry) [(''Java'', 50::int), (''Kotlin'', 100)]
   \<and> sum_list (map snd [(''Java'', 50::int), (''Kotlin'', 100)]) < 2 ^ 53
   \<and> sum_list (map snd [(''Java'', 50::int), (''Kotlin'', 100)]) \<noteq> 0
   \<and> sort_key (\<lambda>entry. - snd entry) [(''Java'', 50::int), (''Kotlin'', 100)]
       = [(''Kotlin'', 100), (''Java'', 50)]
   \<and> configs (toLowerCase ''Kotlin'') = None
   \<and> map_of mappings (toLowerCase ''Kotlin'') = None
   \<and> toLowerCase ''Kotlin'' \<notin> set inheritedNames
   \<and> language (detectLanguage (Some [(''Java'', 50), (''Kotlin'', 100)]) (Some goModTree))
       = Str ''kotlin''
   \<and> detectionMethod (detectLanguage (Some [(''Java'', 50), (''Kotlin'', 100)]) (Some goModTree))
       = GithubApi
   \<and> confidence (detectLanguage (Some [(''Java'', 50), (''Kotlin'', 100)]) (Some goModTree))
       = 6004799503160661 / 9007199254740992
   \<and> languageStats (detectLanguage (Some [(''Java'', 50), (''Kotlin'', 100)]) (Some goModTree))
       = Some [(''Java'', 50), (''Kotlin'', 100)]"
proof -
  have "binary64 (100 / 150) = 6004799503160661 / 9007199254740992"
    by code_simp
  with unrecognized_name_kept [of "[(''Java'', 50), (''Kotlin'', 100)]" "''Kotlin''" 100
      "[(''Java'', 50)]" "Some goModTree"]
  show ?thesis
    by (simp add: toLowerCase_kotlin configs_kotlin mappings_kotlin inheritedNames_def)
qed

lemma goConfig_distinct: "javascriptConfig \<noteq> goConfig" "pythonConfig \<noteq> goConfig"
  by (simp_all add: javascriptConfig_def pythonConfig_def goConfig_def)

text \<open>
  C6. When the host gives no usable statistics and a manifest of some profile appears in
  the list of file paths (as an entry, compared without regard to letter case), detection
  returns the first profile in catalogue order that has such a manifest, with the manifest
  tag and confidence 8/10, however many manifests appear. In particular a listing with
  \<open>go.mod\<close> and no manifest of another profile gives \<open>go\<close>.
\<close>

theorem manifest_detection:
  assumes "detectFromGitHubAPI response = None"
  shows "(List.find (\<lambda>c. manifestPresent c tree) LANGUAGE_CONFIGS = Some c \<longrightarrow>
            language (detectLanguage response (Some tree)) = Str (id' c)
            \<and> detectionMethod (detectLanguage response (Some tree)) = Manifest
            \<and> confidence (detectLanguage response (Some tree)) = 8 / 10)
       \<and> (''go.mod'' \<in> set (map toLowerCase (blobPaths tree))
            \<and> (\<forall>c' \<in> set LANGUAGE_CONFIGS. c' \<noteq> goConfig \<longrightarrow> \<not> manifestPresent c' tree) \<longrightarrow>
            language (detectLanguage response (Some tree)) = Str ''go''
            \<and> detectionMethod (detectLanguage response (Some tree)) = Manifest
            \<and> confidence (detectLanguage response (Some tree)) = 8 / 10)"
proof -
  have first: "language (detectLanguage response (Some tree)) = Str (id' c)
      \<and> detectionMethod (detectLanguage response (Some tree)) = Manifest
      \<and> confidence (detectLanguage response (Some tree)) = 8 / 10"
    if "List.find (\<lambda>c. manifestPresent c tree) LANGUAGE_CONFIGS = Some c" for c
  proof -
    from detectFromManifests_first [OF that] obtain d where
      d: "detectFromManifests tree = Some d" "language d = Str (id' c)"
         "detectionMethod d = Manifest" "confidence d = 8 / 10"
      by blast
    with assms have "detectLanguage response (Some tree) = d"
      by (simp add: detectLanguage_def)
    with d show ?thesis by simp
  qed
  have go: "List.find (\<lambda>c. manifestPresent c tree) LANGUAGE_CONFIGS = Some goConfig"
    if m: "''go.mod'' \<in> set (map toLowerCase (blobPaths tree))"
      and o: "\<forall>c' \<in> set LANGUAGE_CONFIGS. c' \<noteq> goConfig \<longrightarrow> \<not> manifestPresent c' tree"
  proof -
    have "toLowerCase ''go.mod'' = ''go.mod''"
      by (simp add: toLowerCase_def toLowerChar_def)
    with m have "manifestPresent goConfig tree"
      by (simp add: manifestPresent_def goConfig_def)
    moreover from o have "\<not> manifestPresent javascriptConfig tree" "\<not> manifestPresent pythonConfig tree"
      using goConfig_distinct by (simp_all add: LANGUAGE_CONFIGS_def)
    ultimately show ?thesis by (simp add: LANGUAGE_CONFIGS_def)
  qed
  have "id' goConfig = ''go''" by (simp add: goConfig_def)
  with first [of c] first [of goConfig] go show ?thesis by simp
qed

lemma find_goModTree:
  "List.find (\<lambda>c. manifestPresent c goModTree) LANGUAGE_CONFIGS = Some goConfig"
  by code_simp

lemma others_goModTree:
  "\<forall>c' \<in> set LANGUAGE_CONFIGS. c' \<noteq> goConfig \<longrightarrow> \<not> manifestPresent c' goModTree"
  by code_simp

lemma only_goModTree:
  "filter (\<lambda>c. manifestPresent c goModTree) LANGUAGE_CONFIGS = [goConfig]"
  by code_simp

theorem manifest_detection_witness:
  "detectFromGitHubAPI None = None
   \<and> List.find (\<lambda>c. manifestPresent c goModTree) LANGUAGE_CONFIGS = Some goConfig
   \<and> ''go.mod'' \<in> set (map toLowerCase (blobPaths goModTree))
   \<and> filter (\<lambda>c. manifestPresent c goModTree) LANGUAGE_CONFIGS = [goConfig]
   \<and> language (detectLanguage None (Some goModTree)) = Str ''go''
   \<and> detectionMethod (detectLanguage None (Some goModTree)) = Manifest
   \<and> confidence (detectLanguage None (Some goModTree)) = 8 / 10"
proof -
  have a: "detectFromGitHubAPI None = None"
    by (simp add: detectFromGitHubAPI_def)
  have b: "''go.mod'' \<in> set (map toLowerCase (blobPaths goModTree))"
    by (simp add: goModTree_def blobPaths_def toLowerCase_def toLowerChar_def)
  from manifest_detection [OF a, of goModTree goConfig] a b find_goModTree others_goModTree
    only_goModTree
  show ?thesis by (simp add: goConfig_def)
qed

lemma no_manifest_readmeTree: "\<forall>c \<in> set LANGUAGE_CONFIGS. \<not> manifestPresent c readmeTree"
  by code_simp

lemma no_extension_readmeTree: "\<not> extensionKnown readmeTree"
  by (simp add: extensionKnown_def readmeTree_def blobPaths_def getExtension_def
      findLanguageByExtension_def config_defs)

lemma getExtension_Gemfile: "getExtension ''Gemfile'' = None"
  by (simp add: getExtension_def)

lemma detectedManifests_gemfileTree: "detectedManifests gemfileTree = [(''ruby'', ''Gemfile'')]"
  by code_simp

lemma detectFromManifests_gemfileTree:
  "detectFromManifests gemfileTree =
     Some \<lparr> language = Str ''ruby'', confidence = 8 / 10, detectionMethod = Manifest,
            languageStats = None, detectedManifestFiles = Some [''Gemfile''] \<rparr>"
  by (simp add: detectFromManifests_def detectedManifests_gemfileTree)

lemma no_extension_gemfileTree: "\<not> extensionKnown gemfileTree"
  by (simp add: extensionKnown_def gemfileTree_def blobPaths_def getExtension_Gemfile)

text \<open>
  C7 as stated fails in two places. The default answer carries the tag \<open>manual\<close>, which is
  the tag of the manual override. And a listing none of whose extensions belongs to a
  profile can still hold a manifest: for the single file \<open>Gemfile\<close> the answer is \<open>ruby\<close>
  with confidence 8/10, not the default.
\<close>

theorem default_claim_fails:
  "detectFromGitHubAPI None = None
   \<and> detectionMethod (detectLanguage None None) = detectionMethod (manualDetection ''python'')
   \<and> \<not> extensionKnown gemfileTree
   \<and> language (detectLanguage None (Some gemfileTree)) = Str ''ruby''
   \<and> confidence (detectLanguage None (Some gemfileTree)) = 8 / 10"
  by (simp add: detectLanguage_def detectFromGitHubAPI_def defaultDetection_def manualDetection_def
      detectFromManifests_gemfileTree no_extension_gemfileTree)

text \<open>
  C7, amended. When the host gives no usable statistics and either no listing was supplied
  or the listing holds no manifest of any profile and no file whose extension belongs to a
  profile, detection returns \<open>javascript\<close> with confidence 3/10; its tag is \<open>manual\<close>, the
  tag the manual override carries too.
\<close>

theorem default_detection:
  assumes "detectFromGitHubAPI response = None"
    and "tree = None
         \<or> (\<exists>t. tree = Some t \<and> (\<forall>c \<in> set LANGUAGE_CONFIGS. \<not> manifestPresent c t)
                \<and> \<not> extensionKnown t)"
  shows "language (detectLanguage response tree) = Str ''javascript''
    \<and> confidence (detectLanguage response tree) = 3 / 10
    \<and> detectionMethod (detectLanguage response tree) = Manual"
proof -
  have "detectLanguage response tree = defaultDetection"
  proof (cases tree)
    case None
    with assms(1) show ?thesis by (simp add: detectLanguage_def)
  next
    case (Some t)
    with assms(2) have "detectFromManifests t = None" "detectFromExtensions t = None"
      by (simp_all add: detectFromManifests_none detectFromExtensions_none)
    with assms(1) Some show ?thesis by (simp add: detectLanguage_def)
  qed
  then show ?thesis by (simp add: defaultDetection_def)
qed

theorem default_detection_witness:
  "detectFromGitHubAPI None = None
   \<and> filter (\<lambda>c. manifestPresent c readmeTree) LANGUAGE_CONFIGS = []
   \<and> \<not> extensionKnown readmeTree
   \<and> language (detectLanguage None (Some readmeTree)) = Str ''javascript''
   \<and> confidence (detectLanguage None (Some readmeTree)) = 3 / 10
   \<and> detectionMethod (detectLanguage None (Some readmeTree)) = Manual
   \<and> language (detectLanguage None None) = Str ''javascript''
   \<and> confidence (detectLanguage None None) = 3 / 10
   \<and> detectionMethod (detectLanguage None None) = Manual"
proof -
  have a: "detectFromGitHubAPI None = None"
    by (simp add: detectFromGitHubAPI_def)
  from default_detection [OF a, of "Some readmeTree"] default_detection [OF a, of None]
    a no_manifest_readmeTree no_extension_readmeTree
  show ?thesis by (simp add: filter_empty_conv)
qed


section \<open>Relative imports\<close>

lemma split_nonempty: "split sep s \<noteq> []"
  by (induction s) (auto split: list.splits)

lemma split_no_sep: "sep \<notin> set w \<Longrightarrow> split sep w = [w]"
  by (induction w) auto

lemma split_append: "split sep (xs @ sep # ys) = split sep xs @ split sep ys"
proof (induction xs)
  case Nil
  then show ?case by simp
next
  case (Cons c cs)
  obtain w ws where "split sep cs = w # ws"
    using split_nonempty [of sep cs] by (cases "split sep cs") auto
  with Cons show ?case by simp
qed

lemma join_Cons_Cons: "join sep ((c # w) # ws) = c # join sep (w # ws)"
  by (cases ws) auto

lemma join_split: "join [sep] (split sep s) = s"
proof (induction s)
  case Nil
  then show ?case by simp
next
  case (Cons c cs)
  obtain w ws where e: "split sep cs = w # ws"
    using split_nonempty [of sep cs] by (cases "split sep cs") auto
  with Cons show ?case by (simp add: join_Cons_Cons)
qed

lemma join_snoc: "xs \<noteq> [] \<Longrightarrow> join sep (xs @ [w]) = join sep xs @ sep @ w"
  by (induction sep xs rule: join.induct) auto

lemma join_append: "xs \<noteq> [] \<Longrightarrow> ys \<noteq> [] \<Longrightarrow> join sep (xs @ ys) = join sep xs @ sep @ join sep ys"
  by (induction sep xs rule: join.induct) (auto, (cases ys; simp)+)

lemma split_join:
  "xs \<noteq> [] \<Longrightarrow> \<forall>w \<in> set xs. sep \<notin> set w \<Longrightarrow> split sep (join [sep] xs) = xs"
proof (induction "[sep]" xs rule: join.induct)
  case 1
  then show ?case by simp
next
  case (2 w)
  then show ?case by (simp add: split_no_sep)
next
  case (3 w v ws)
  then show ?case by (simp add: split_append split_no_sep)
qed

lemma split_dir_file:
  assumes "CHR ''/'' \<notin> set b" "CHR ''/'' \<notin> set f"
  shows "split CHR ''/'' (a @ CHR ''/'' # b @ CHR ''/'' # f) = split CHR ''/'' a @ [b, f]"
  using assms by (simp add: split_append split_no_sep)

lemma join_slash_snoc: "join ''/'' (split CHR ''/'' a @ [w]) = a @ CHR ''/'' # w"
  using join_snoc [of "split CHR ''/'' a" "''/''" w] join_split [of "CHR ''/''" a]
  by (simp add: split_nonempty)

lemma js_currentDir:
  assumes "CHR ''/'' \<notin> set b" "CHR ''/'' \<notin> set f"
  shows "join ''/'' (butlast (split CHR ''/'' (a @ CHR ''/'' # b @ CHR ''/'' # f))) = a @ CHR ''/'' # b"
proof -
  have "butlast (split CHR ''/'' a @ [b, f]) = split CHR ''/'' a @ [b]"
    by (simp add: butlast_append)
  with assms show ?thesis
    by (simp add: split_dir_file join_slash_snoc)
qed

lemma filter_nonempty_id: "[] \<notin> set xs \<Longrightarrow> filter (\<lambda>part. part \<noteq> []) xs = xs"
  by (induction xs) auto

lemma js_parent_sibling:
  assumes "[] \<notin> set (split CHR ''/'' a)" "b \<noteq> []" "CHR ''/'' \<notin> set b"
    and "CHR ''/'' \<notin> set d" "d \<noteq> ''.''" "d \<noteq> ''..''"
  shows "js_normalizePath (a @ CHR ''/'' # b) (CHR ''.'' # CHR ''.'' # CHR ''/'' # d) = a @ CHR ''/'' # d"
proof -
  have dir: "filter (\<lambda>part. part \<noteq> []) (split CHR ''/'' (a @ CHR ''/'' # b)) = split CHR ''/'' a @ [b]"
    using assms(1,2,3) by (simp add: split_append split_no_sep filter_nonempty_id)
  have rel: "split CHR ''/'' (CHR ''.'' # CHR ''.'' # CHR ''/'' # d) = [''..'', d]"
    using assms(4) by (simp add: split_no_sep)
  show ?thesis
    unfolding js_normalizePath_def dir rel
    using assms(5,6) by (simp add: join_slash_snoc)
qed

lemma takeWhile_dots: "CHR ''.'' \<notin> set d \<Longrightarrow> takeWhile (\<lambda>c. c = CHR ''.'') d = []"
  by (cases d) auto

lemma dotsToSlashes_id: "CHR ''.'' \<notin> set d \<Longrightarrow> dotsToSlashes d = d"
  by (induction d) (auto simp: dotsToSlashes_def)

lemma py_parent_sibling:
  assumes "CHR ''/'' \<notin> set b" "CHR ''/'' \<notin> set f" "d \<noteq> []" "CHR ''.'' \<notin> set d"
  shows "py_resolveRelativeImport (CHR ''.'' # CHR ''.'' # d) (a @ CHR ''/'' # b @ CHR ''/'' # f)
    = Some (a @ CHR ''/'' # d @ ''.py'')"
proof -
  have dots: "takeWhile (\<lambda>c. c = CHR ''.'') (CHR ''.'' # CHR ''.'' # d) = ''..''"
    using assms(4) by (simp add: takeWhile_dots)
  have dir: "butlast (split CHR ''/'' (a @ CHR ''/'' # b @ CHR ''/'' # f)) = split CHR ''/'' a @ [b]"
    using assms(1,2) by (simp add: split_dir_file butlast_append)
  have sl: "slice0 (split CHR ''/'' a @ [b]) (int (length (split CHR ''/'' a @ [b])) - (int (length ''..'') - 1))
      = split CHR ''/'' a"
    by (simp add: slice0_def)
  have j: "join ''/'' (split CHR ''/'' a) = a"
    using join_split [of "CHR ''/''" a] by simp
  show ?thesis
    unfolding py_resolveRelativeImport_def dots dir Let_def sl
    using assms(3,4) by (simp add: split_nonempty j dotsToSlashes_id)
qed

lemma fold_dotdot:
  "fold (\<lambda>part parts.
           if part = ''..'' then butlast parts
           else if part \<noteq> ''.'' then parts @ [part]
           else parts) (replicate k ''..'') parts
   = take (length parts - k) parts"
proof (induction k arbitrary: parts)
  case 0
  then show ?case by simp
next
  case (Suc k)
  have "take (length (butlast parts) - k) (butlast parts) = take (length parts - Suc k) parts"
    by (simp add: butlast_conv_take min_def)
  with Suc show ?case by simp
qed

lemma fold_plain:
  "\<forall>w \<in> set tail. w \<noteq> ''.'' \<and> w \<noteq> ''..'' \<Longrightarrow>
   fold (\<lambda>part parts.
           if part = ''..'' then butlast parts
           else if part \<noteq> ''.'' then parts @ [part]
           else parts) tail parts
   = parts @ tail"
  by (induction tail arbitrary: parts) auto

lemma split_join_dirs:
  assumes "\<forall>w \<in> set dirs. w \<noteq> [] \<and> CHR ''/'' \<notin> set w"
  shows "filter (\<lambda>part. part \<noteq> []) (split CHR ''/'' (join ''/'' dirs)) = dirs"
proof (cases "dirs = []")
  case True
  then show ?thesis by simp
next
  case False
  with assms have "split CHR ''/'' (join ''/'' dirs) = dirs"
    by (simp add: split_join)
  moreover from assms have "[] \<notin> set dirs" by auto
  ultimately show ?thesis by (simp add: filter_nonempty_id)
qed

lemma js_normalizePath_clamps:
  assumes "\<forall>w \<in> set dirs. w \<noteq> [] \<and> CHR ''/'' \<notin> set w"
    and "tail \<noteq> []"
    and "\<forall>w \<in> set tail. CHR ''/'' \<notin> set w \<and> w \<noteq> ''.'' \<and> w \<noteq> ''..''"
  shows "js_normalizePath (join ''/'' dirs) (join ''/'' (replicate k ''..'' @ tail))
    = join ''/'' (take (length dirs - k) dirs @ tail)"
proof -
  have rel: "split CHR ''/'' (join ''/'' (replicate k ''..'' @ tail)) = replicate k ''..'' @ tail"
  proof (rule split_join)
    show "replicate k ''..'' @ tail \<noteq> []"
      using assms(2) by simp
    show "\<forall>w \<in> set (replicate k ''..'' @ tail). CHR ''/'' \<notin> set w"
    proof
      fix w
      assume "w \<in> set (replicate k ''..'' @ tail)"
      then have "w = ''..'' \<or> w \<in> set tail"
        by (cases "k = 0") simp_all
      then show "CHR ''/'' \<notin> set w"
      proof
        assume "w = ''..''"
        then show ?thesis by simp
      next
        assume "w \<in> set tail"
        with assms(3) show ?thesis by simp
      qed
    qed
  qed
  have "\<forall>w \<in> set tail. w \<noteq> ''.'' \<and> w \<noteq> ''..''"
    using assms(3) by simp
  then have steps: "fold (\<lambda>part parts.
           if part = ''..'' then butlast parts
           else if part \<noteq> ''.'' then parts @ [part]
           else parts) (replicate k ''..'' @ tail) dirs
      = take (length dirs - k) dirs @ tail"
    by (simp only: fold_append o_apply fold_dotdot fold_plain)
  show ?thesis
    unfolding js_normalizePath_def rel split_join_dirs [OF assms(1)] steps ..
qed

text \<open>
  C9. For a current file \<open>a/b/f\<close>, where \<open>a\<close> is a directory path without empty segments,
  \<open>b\<close> a directory name and \<open>f\<close> the file name, the import of the sibling \<open>d\<close> of the
  parent directory resolves to \<open>a/d\<close> in both parsers: the JavaScript parser resolves
  \<open>../d\<close> to \<open>a/d\<close>, the Python parser resolves the same import, written \<open>..d\<close>, to
  \<open>a/d.py\<close>. Here \<open>d\<close> is a plain module name: not empty, without slash and dot.
\<close>

theorem parent_sibling_resolution:
  assumes "[] \<notin> set (split CHR ''/'' a)" "b \<noteq> []" "CHR ''/'' \<notin> set b" "CHR ''/'' \<notin> set f"
    and "d \<noteq> []" "CHR ''/'' \<notin> set d" "CHR ''.'' \<notin> set d"
  shows "js_resolveImportPath (''../'' @ d) (a @ ''/'' @ b @ ''/'' @ f) = a @ ''/'' @ d
    \<and> py_resolveRelativeImport (''..'' @ d) (a @ ''/'' @ b @ ''/'' @ f) = Some (a @ ''/'' @ d @ ''.py'')"
proof
  from assms(7) have "d \<noteq> ''.''" "d \<noteq> ''..''" by auto
  with assms show "js_resolveImportPath (''../'' @ d) (a @ ''/'' @ b @ ''/'' @ f) = a @ ''/'' @ d"
    by (simp add: js_resolveImportPath_def startsWith_def js_currentDir js_parent_sibling)
next
  from assms show "py_resolveRelativeImport (''..'' @ d) (a @ ''/'' @ b @ ''/'' @ f) = Some (a @ ''/'' @ d @ ''.py'')"
    by (simp add: py_parent_sibling)
qed

theorem parent_sibling_resolution_witness:
  "[] \<notin> set (split CHR ''/'' ''src'') \<and> ''lib'' \<noteq> [] \<and> CHR ''/'' \<notin> set ''lib''
   \<and> CHR ''/'' \<notin> set ''c.ext'' \<and> ''d'' \<noteq> [] \<and> CHR ''/'' \<notin> set ''d'' \<and> CHR ''.'' \<notin> set ''d''
   \<and> js_resolveImportPath ''../d'' ''src/lib/c.ext'' = ''src/d''
   \<and> py_resolveRelativeImport ''..d'' ''src/lib/c.ext'' = Some ''src/d.py''"
  using parent_sibling_resolution [of "''src''" "''lib''" "''c.ext''" "''d''"] by simp

text \<open>
  C10. The JavaScript parser ignores the \<open>..\<close> segments that would leave the root
  (\<open>js_normalizePath_clamps\<close>), and the Python parser is meant to drop an import that
  ascends above the root. For the file \<open>a/b/c.py\<close>, two directories deep, the import
  \<open>....x\<close> ascends three levels and is not dropped: the end index of the slice is
  negative and counts from the end, so the import resolves to \<open>a/x.py\<close>. Ascending
  exactly to the root (\<open>...x\<close>) or four or more levels (\<open>.....x\<close>) is dropped.
\<close>

theorem python_ascent_above_root_kept: "py_resolveRelativeImport ''....x'' ''a/b/c.py'' = Some ''a/x.py''
   \<and> py_resolveRelativeImport ''...x'' ''a/b/c.py'' = None
   \<and> py_resolveRelativeImport ''.....x'' ''a/b/c.py'' = None
   \<and> js_resolveImportPath ''../../../x'' ''a/b/c.ts'' = ''x''
   \<and> js_resolveImportPath ''../../x'' ''a/b.ts'' = ''x''"
  by (simp add: py_resolveRelativeImport_def slice0_def js_resolveImportPath_def startsWith_def
      js_normalizePath_def dotsToSlashes_def)

section \<open>Graph builder\<close>

lemma map_entry_keys: "map fst (AList.map_entry k f xs) = map fst xs"
  by (induction xs) auto

lemma map_entry_absent: "map_of xs k = None \<Longrightarrow> AList.map_entry k f xs = xs"
  by (induction xs) (auto split: if_splits)

lemma addImport_link:
  "addImport parser av source importPath state = fold (link source) (matched parser av importPath) state"
proof (cases "matchingPath parser importPath av")
  case None
  then show ?thesis by (simp add: addImport_def matched_def)
next
  case (Some target)
  show ?thesis
  proof (cases "target = []")
    case True
    with Some show ?thesis by (simp add: addImport_def matched_def)
  next
    case False
    let ?t1 = "AList.map_entry source (\<lambda>node. node\<lparr>imports' := imports' node @ [target]\<rparr>) (fst state)"
    show ?thesis
    proof (cases "map_of ?t1 target")
      case None
      then have "AList.map_entry target (\<lambda>node. node\<lparr>importedBy := importedBy node @ [source]\<rparr>) ?t1 = ?t1"
        by (rule map_entry_absent)
      with None Some False show ?thesis
        by (simp add: addImport_def matched_def link_def)
    next
      case (Some targetNode)
      with \<open>matchingPath parser importPath av = Some target\<close> False show ?thesis
        by (simp add: addImport_def matched_def link_def)
    qed
  qed
qed

lemma fold_addImport:
  "fold (addImport parser av source) importPaths state
   = fold (link source) (concat (map (matched parser av) importPaths)) state"
  by (induction importPaths arbitrary: state) (simp_all add: addImport_link)

lemma processFile_link:
  "processFile parser av file state =
     (if map_of (fst state) (fst file) = None then state
      else fold (link (fst file)) (fileTargets parser av file) state)"
  by (auto simp: processFile_def fileTargets_def fold_addImport split: option.splits)

lemma link_keys: "map fst (fst (link source target state)) = map fst (fst state)"
  by (simp add: link_def map_entry_keys)

lemma link_edges: "snd (link source target state) = snd state @ [(source, target)]"
  by (simp add: link_def)

lemma fold_link_keys: "map fst (fst (fold (link source) targets state)) = map fst (fst state)"
  by (induction targets arbitrary: state) (simp_all add: link_keys)

lemma fold_link_edges:
  "snd (fold (link source) targets state) = snd state @ map (Pair source) targets"
  by (induction targets arbitrary: state) (simp_all add: link_edges)

lemma map_of_link:
  "map_of (fst (link source target state)) k =
     map_option (\<lambda>n. n\<lparr>imports' := imports' n @ (if k = source then [target] else []),
                       importedBy := importedBy n @ (if k = target then [source] else [])\<rparr>)
       (map_of (fst state) k)"
  by (cases "map_of (fst state) k"; cases "k = source"; cases "k = target";
      simp add: link_def map_of_map_entry)

lemma consistent_link:
  assumes "consistent parser state"
  shows "consistent parser (link source target state)"
  unfolding consistent_def
proof (intro allI impI)
  fix k n
  assume "map_of (fst (link source target state)) k = Some n"
  then obtain m where m: "map_of (fst state) k = Some m"
    and n: "n = m\<lparr>imports' := imports' m @ (if k = source then [target] else []),
                   importedBy := importedBy m @ (if k = target then [source] else [])\<rparr>"
    unfolding map_of_link by (cases "map_of (fst state) k") simp_all
  from assms m have old: "path m = k" "type m = getFileType parser k"
    "set (imports' m) = {t. (k, t) \<in> set (snd state)}"
    "set (importedBy m) = {s. (s, k) \<in> set (snd state)}"
    unfolding consistent_def by simp_all
  show "path n = k \<and> type n = getFileType parser k
     \<and> set (imports' n) = {t. (k, t) \<in> set (snd (link source target state))}
     \<and> set (importedBy n) = {s. (s, k) \<in> set (snd (link source target state))}"
    unfolding n link_edges using old by auto
qed

lemma consistent_fold_link:
  "consistent parser state \<Longrightarrow> consistent parser (fold (link source) targets state)"
  by (induction targets arbitrary: state) (simp_all add: consistent_link)

lemma consistent_processFile:
  "consistent parser state \<Longrightarrow> consistent parser (processFile parser' av file state)"
  by (simp add: processFile_link consistent_fold_link)

lemma processFile_keys: "map fst (fst (processFile parser av file state)) = map fst (fst state)"
  by (simp add: processFile_link fold_link_keys)

lemma processFile_edges:
  "fst file \<in> set (map fst (fst state)) \<Longrightarrow>
   snd (processFile parser av file state) = snd state @ fileEdges parser av file"
proof -
  assume "fst file \<in> set (map fst (fst state))"
  then have "map_of (fst state) (fst file) \<noteq> None"
    by (simp add: map_of_eq_None_iff)
  then obtain node where "map_of (fst state) (fst file) = Some node"
    by (cases "map_of (fst state) (fst file)") simp_all
  then show ?thesis
    by (simp add: processFile_link fold_link_edges fileEdges_def)
qed

lemma fold_processFile:
  assumes "fst ` set files \<subseteq> set (map fst (fst state))" "consistent parser state"
  shows "map fst (fst (fold (processFile parser av) files state)) = map fst (fst state)
    \<and> snd (fold (processFile parser av) files state) = snd state @ concat (map (fileEdges parser av) files)
    \<and> consistent parser (fold (processFile parser av) files state)"
  using assms
proof (induction files arbitrary: state)
  case Nil
  then show ?case by simp
next
  case (Cons x xs)
  let ?s = "processFile parser av x state"
  have k: "map fst (fst ?s) = map fst (fst state)"
    by (rule processFile_keys)
  have e: "snd ?s = snd state @ fileEdges parser av x"
    using Cons.prems(1) by (intro processFile_edges) simp
  have c: "consistent parser ?s"
    using Cons.prems(2) by (rule consistent_processFile)
  have "fst ` set xs \<subseteq> set (map fst (fst ?s))"
    using Cons.prems(1) k by simp
  from Cons.IH [OF this c] k e show ?case by simp
qed

lemma map_of_initNodes_fold:
  "map_of (fold (\<lambda>file table.
             AList.update (fst file)
               \<lparr> path = fst file, type = getFileType parser (fst file),
                 imports' = [], importedBy = [] \<rparr>
               table) files acc) k
   = (if k \<in> fst ` set files
      then Some \<lparr> path = k, type = getFileType parser k, imports' = [], importedBy = [] \<rparr>
      else map_of acc k)"
  by (induction files arbitrary: acc) (auto simp: update_conv')

lemma map_of_initNodes:
  "map_of (initNodes parser files) k
   = (if k \<in> fst ` set files
      then Some \<lparr> path = k, type = getFileType parser k, imports' = [], importedBy = [] \<rparr>
      else None)"
  unfolding initNodes_def map_of_initNodes_fold by simp

lemma distinct_initNodes_fold:
  "distinct (map fst acc) \<Longrightarrow>
   distinct (map fst (fold (\<lambda>file table.
             AList.update (fst file)
               \<lparr> path = fst file, type = getFileType parser (fst file),
                 imports' = [], importedBy = [] \<rparr>
               table) files acc))"
  by (induction files arbitrary: acc) (simp_all add: distinct_update)

lemma distinct_initNodes: "distinct (map fst (initNodes parser files))"
  unfolding initNodes_def by (rule distinct_initNodes_fold) simp

lemma keys_initNodes: "fst ` set (initNodes parser files) = fst ` set files"
proof -
  have "fst ` set (initNodes parser files) = dom (map_of (initNodes parser files))"
    by (simp add: dom_map_of_conv_image_fst)
  also have "\<dots> = fst ` set files"
    by (auto simp: map_of_initNodes dom_def split: if_splits)
  finally show ?thesis .
qed

lemma consistent_initNodes: "consistent parser (initNodes parser files, [])"
  by (auto simp: consistent_def map_of_initNodes split: if_splits)

text \<open>The state in which the second loop of the build ends.\<close>

lemma final_state:
  "map fst (fst (fold (processFile parser (map fst (initNodes parser files))) files
             (initNodes parser files, [])))
     = map fst (initNodes parser files)
   \<and> snd (fold (processFile parser (map fst (initNodes parser files))) files
             (initNodes parser files, []))
     = concat (map (fileEdges parser (map fst (initNodes parser files))) files)
   \<and> consistent parser (fold (processFile parser (map fst (initNodes parser files))) files
             (initNodes parser files, []))"
proof -
  have sub: "fst ` set files \<subseteq> set (map fst (fst (initNodes parser files, [])))"
    by (simp add: keys_initNodes)
  from fold_processFile [OF sub consistent_initNodes] show ?thesis
    by simp
qed

lemma buildGraph_edges:
  "edges (buildGraph parser files)
   = concat (map (fileEdges parser (map fst (initNodes parser files))) files)"
  using final_state [of parser files] by (simp add: buildGraph_def Let_def)

lemma buildGraph_nodes:
  assumes "n \<in> set (nodes (buildGraph parser files))"
  shows "path n \<in> fst ` set files \<and> type n = getFileType parser (path n)
    \<and> set (imports' n) = {t. (path n, t) \<in> set (edges (buildGraph parser files))}
    \<and> set (importedBy n) = {s. (s, path n) \<in> set (edges (buildGraph parser files))}"
proof -
  let ?av = "map fst (initNodes parser files)"
  let ?final = "fold (processFile parser ?av) files (initNodes parser files, [])"
  have f: "map fst (fst ?final) = ?av" "consistent parser ?final"
    using final_state [of parser files] by simp_all
  have g: "nodes (buildGraph parser files) = map snd (fst ?final)"
    "edges (buildGraph parser files) = snd ?final"
    by (simp_all add: buildGraph_def Let_def)
  from assms obtain k where kn: "(k, n) \<in> set (fst ?final)"
    unfolding g by auto
  have "distinct (map fst (fst ?final))"
    unfolding f(1) by (rule distinct_initNodes)
  with kn have m: "map_of (fst ?final) k = Some n"
    by simp
  from kn have "k \<in> fst ` set (fst ?final)"
    by force
  then have "k \<in> set (map fst (fst ?final))"
    by simp
  then have "k \<in> fst ` set files"
    unfolding f(1) using keys_initNodes [of parser files] by simp
  moreover from f(2) m have "path n = k \<and> type n = getFileType parser k
        \<and> set (imports' n) = {t. (k, t) \<in> set (snd ?final)}
        \<and> set (importedBy n) = {s. (s, k) \<in> set (snd ?final)}"
    unfolding consistent_def by blast
  ultimately show ?thesis unfolding g(2) by simp
qed

lemma buildGraph_paths: "path ` set (nodes (buildGraph parser files)) = fst ` set files"
proof
  show "path ` set (nodes (buildGraph parser files)) \<subseteq> fst ` set files"
    using buildGraph_nodes by blast
next
  let ?av = "map fst (initNodes parser files)"
  let ?final = "fold (processFile parser ?av) files (initNodes parser files, [])"
  have f: "map fst (fst ?final) = ?av" "consistent parser ?final"
    using final_state [of parser files] by simp_all
  show "fst ` set files \<subseteq> path ` set (nodes (buildGraph parser files))"
  proof
    fix k
    assume "k \<in> fst ` set files"
    then have "k \<in> set (map fst (fst ?final))"
      unfolding f(1) using keys_initNodes [of parser files] by simp
    then have "map_of (fst ?final) k \<noteq> None"
      by (simp add: map_of_eq_None_iff)
    then obtain m where m: "map_of (fst ?final) k = Some m"
      by (cases "map_of (fst ?final) k") simp_all
    then have "(k, m) \<in> set (fst ?final)"
      by (rule map_of_SomeD)
    then have "m \<in> snd ` set (fst ?final)"
      by force
    then have "m \<in> set (nodes (buildGraph parser files))"
      by (simp add: buildGraph_def Let_def)
    moreover from f(2) m have "path m = k"
      unfolding consistent_def by blast
    ultimately show "k \<in> path ` set (nodes (buildGraph parser files))"
      by force
  qed
qed

lemma find_mem: "List.find (\<lambda>v. v \<in> set av) vs = Some v \<Longrightarrow> v \<in> set av"
  by (induction vs) (auto split: if_splits)

lemma js_matchImportToFile_mem:
  "js_matchImportToFile importPath av = Some t \<Longrightarrow> t \<in> set av"
proof (induction importPath av arbitrary: t rule: js_matchImportToFile.induct)
  case (1 importPath availableFiles)
  show ?case
  proof (cases "importPath \<in> set availableFiles")
    case True
    with "1.prems" show ?thesis
      by (simp add: js_matchImportToFile.simps [of importPath availableFiles])
  next
    case False
    show ?thesis
    proof (cases "List.find (\<lambda>variation. variation \<in> set availableFiles) (js_variations importPath)")
      case (Some v)
      with False "1.prems" have "t = v"
        by (simp add: js_matchImportToFile.simps [of importPath availableFiles])
      with Some show ?thesis by (simp add: find_mem)
    next
      case None
      define result1 where "result1 =
        (if startsWith importPath ''packages/''
         then js_matchImportToFile (drop 9 importPath) availableFiles else None)"
      define result2 where "result2 =
        (if \<not> startsWith importPath ''apps/'' \<and> \<not> startsWith importPath ''packages/''
         then js_matchImportToFile (''apps/'' @ importPath) availableFiles else None)"
      have res: "js_matchImportToFile importPath availableFiles =
          (if truthy result1 then result1 else if truthy result2 then result2 else None)"
        using False None
        by (simp add: js_matchImportToFile.simps [of importPath availableFiles] result1_def result2_def)
      show ?thesis
      proof (cases "truthy result1")
        case True
        with res "1.prems" have r: "result1 = Some t" by simp
        then have p: "startsWith importPath ''packages/''"
          unfolding result1_def by (simp split: if_splits)
        with r have "js_matchImportToFile (drop 9 importPath) availableFiles = Some t"
          unfolding result1_def by simp
        with "1.IH"(1) [OF False None p] show ?thesis .
      next
        case nt: False
        with res "1.prems" have t2: "truthy result2" and r: "result2 = Some t"
          by (simp_all split: if_splits)
        then have p: "\<not> startsWith importPath ''apps/'' \<and> \<not> startsWith importPath ''packages/''"
          unfolding result2_def by (simp split: if_splits)
        with r have "js_matchImportToFile (''apps/'' @ importPath) availableFiles = Some t"
          unfolding result2_def by simp
        with "1.IH"(2) [OF False None result1_def nt p] show ?thesis .
      qed
    qed
  qed
qed

lemma js_matchImportToFile_set:
  "set av = set av' \<Longrightarrow> js_matchImportToFile importPath av = js_matchImportToFile importPath av'"
proof (induction importPath av rule: js_matchImportToFile.induct)
  case (1 importPath availableFiles)
  note eq = \<open>set availableFiles = set av'\<close>
  show ?case
  proof (cases "importPath \<in> set availableFiles")
    case True
    with eq show ?thesis
      by (simp add: js_matchImportToFile.simps [of importPath availableFiles]
          js_matchImportToFile.simps [of importPath av'])
  next
    case False
    show ?thesis
    proof (cases "List.find (\<lambda>variation. variation \<in> set availableFiles) (js_variations importPath)")
      case (Some v)
      with False eq show ?thesis
        by (simp add: js_matchImportToFile.simps [of importPath availableFiles]
            js_matchImportToFile.simps [of importPath av'])
    next
      case None
      define result1 where "result1 =
        (if startsWith importPath ''packages/''
         then js_matchImportToFile (drop 9 importPath) availableFiles else None)"
      define result2 where "result2 =
        (if \<not> startsWith importPath ''apps/'' \<and> \<not> startsWith importPath ''packages/''
         then js_matchImportToFile (''apps/'' @ importPath) availableFiles else None)"
      define result1' where "result1' =
        (if startsWith importPath ''packages/''
         then js_matchImportToFile (drop 9 importPath) av' else None)"
      define result2' where "result2' =
        (if \<not> startsWith importPath ''apps/'' \<and> \<not> startsWith importPath ''packages/''
         then js_matchImportToFile (''apps/'' @ importPath) av' else None)"
      have res: "js_matchImportToFile importPath availableFiles =
          (if truthy result1 then result1 else if truthy result2 then result2 else None)"
        using False None
        by (simp add: js_matchImportToFile.simps [of importPath availableFiles] result1_def result2_def)
      have res': "js_matchImportToFile importPath av' =
          (if truthy result1' then result1' else if truthy result2' then result2' else None)"
        using False None eq
        by (simp add: js_matchImportToFile.simps [of importPath av'] result1'_def result2'_def)
      have r1: "result1 = result1'"
        unfolding result1_def result1'_def using "1.IH"(1) [OF False None _ eq] by simp
      have r2: "result2 = result2'" if "\<not> truthy result1"
        unfolding result2_def result2'_def
        using "1.IH"(2) [OF False None result1_def that _ eq] by simp
      from r1 r2 show ?thesis unfolding res res' by simp
    qed
  qed
qed

lemma py_matchImportToFile_mem:
  "py_matchImportToFile importPath av = Some t \<Longrightarrow> t \<in> set av"
  by (auto simp: py_matchImportToFile_def Let_def split: if_splits dest: find_mem)

lemma py_matchImportToFile_set:
  "set av = set av' \<Longrightarrow> py_matchImportToFile importPath av = py_matchImportToFile importPath av'"
  by (simp add: py_matchImportToFile_def Let_def)

lemma getParser_cases: "getParser lang = jsParser \<or> getParser lang = pyParser"
  by (simp add: getParser_def parsers_def split: option.splits)

lemma matchingPath_mem:
  "matchingPath (getParser lang) importPath av = Some t \<Longrightarrow> t \<in> set av"
  using getParser_cases [of lang]
  by (auto simp: matchingPath_def jsParser_def pyParser_def
      dest: js_matchImportToFile_mem py_matchImportToFile_mem)

lemma matchingPath_set:
  "set av = set av' \<Longrightarrow>
   matchingPath (getParser lang) importPath av = matchingPath (getParser lang) importPath av'"
  using getParser_cases [of lang]
    js_matchImportToFile_set [of av av' importPath] py_matchImportToFile_set [of av av' importPath]
  by (auto simp: matchingPath_def jsParser_def pyParser_def)

lemma fileEdges_source: "(s, t) \<in> set (fileEdges parser av file) \<Longrightarrow> s = fst file"
  by (auto simp: fileEdges_def)

lemma fileEdges_origin:
  assumes "(s, t) \<in> set (fileEdges parser av file)"
  shows "snd file \<noteq> [] \<and> (\<exists>importPath \<in> set (parseImports parser (snd file) (fst file)).
           matchingPath parser importPath av = Some t)"
proof -
  from assms have t: "t \<in> set (fileTargets parser av file)"
    by (auto simp: fileEdges_def)
  then have c: "snd file \<noteq> []"
    by (auto simp: fileTargets_def split: if_splits)
  with t obtain importPath where "importPath \<in> set (parseImports parser (snd file) (fst file))"
    and "t \<in> set (matched parser av importPath)"
    by (auto simp: fileTargets_def)
  then show ?thesis
    using c by (auto simp: matched_def split: option.splits if_splits)
qed

lemma node_paths_list:
  "map path (nodes (buildGraph parser files)) = map fst (initNodes parser files)"
proof -
  let ?av = "map fst (initNodes parser files)"
  let ?final = "fold (processFile parser ?av) files (initNodes parser files, [])"
  have f: "map fst (fst ?final) = ?av" "consistent parser ?final"
    using final_state [of parser files] by simp_all
  have d: "distinct (map fst (fst ?final))"
    unfolding f(1) by (rule distinct_initNodes)
  have "path (snd x) = fst x" if "x \<in> set (fst ?final)" for x
  proof -
    from that d have "map_of (fst ?final) (fst x) = Some (snd x)"
      by simp
    with f(2) show ?thesis
      unfolding consistent_def by blast
  qed
  then have "map (\<lambda>x. path (snd x)) (fst ?final) = map fst (fst ?final)"
    by simp
  then show ?thesis
    unfolding f(1) by (simp add: buildGraph_def Let_def comp_def)
qed

lemma getParser_python: "getParser ''python'' = pyParser"
  by (simp add: getParser_def parsers_def toLowerCase_def toLowerChar_def)

lemma buildGraph_moduleImportFiles:
  "buildGraph pyParser moduleImportFiles =
     \<lparr> nodes =
         [\<lparr>path = ''pkg/mod.py'', type = ''other'', imports' = [''pkg/sibling.py''],
            importedBy = []\<rparr>,
          \<lparr>path = ''pkg/sibling.py'', type = ''other'', imports' = [],
            importedBy = [''pkg/mod.py'']\<rparr>],
       edges = [(''pkg/mod.py'', ''pkg/sibling.py'')] \<rparr>"
  by code_simp

text \<open>
  C2. After every build, whatever the language and the files, both ends of every edge are
  paths of nodes of the graph, and every edge comes from an import of a file with content
  that the parser's matcher matched to that node path: an import that matches no node path
  adds no edge. The build is a total function: there is no error to raise.
\<close>

theorem no_dangling_edges:
  "\<forall>(s, t) \<in> set (edges (buildGraph (getParser lang) files)).
     s \<in> path ` set (nodes (buildGraph (getParser lang) files))
     \<and> t \<in> path ` set (nodes (buildGraph (getParser lang) files))
     \<and> (\<exists>content importPath.
           (s, content) \<in> set files \<and> content \<noteq> []
           \<and> importPath \<in> set (parseImports (getParser lang) content s)
           \<and> matchingPath (getParser lang) importPath
                (map path (nodes (buildGraph (getParser lang) files))) = Some t)"
proof (intro ballI, clarify)
  fix s t
  let ?p = "getParser lang"
  let ?av = "map fst (initNodes ?p files)"
  assume "(s, t) \<in> set (edges (buildGraph ?p files))"
  then obtain entry where entry: "entry \<in> set files" and e: "(s, t) \<in> set (fileEdges ?p ?av entry)"
    unfolding buildGraph_edges by auto
  from e have s: "s = fst entry"
    by (rule fileEdges_source)
  from fileEdges_origin [OF e] obtain importPath where c: "snd entry \<noteq> []"
    and i: "importPath \<in> set (parseImports ?p (snd entry) (fst entry))"
    and m: "matchingPath ?p importPath ?av = Some t"
    by blast
  from m have "t \<in> set ?av"
    by (rule matchingPath_mem)
  then have "t \<in> fst ` set files"
    using keys_initNodes [of ?p files] by simp
  moreover from entry s have "s \<in> fst ` set files"
    by simp
  moreover from entry s have "(s, snd entry) \<in> set files"
    by simp
  moreover have "\<exists>content importPath.
           (s, content) \<in> set files \<and> content \<noteq> []
           \<and> importPath \<in> set (parseImports ?p content s)
           \<and> matchingPath ?p importPath ?av = Some t"
    using \<open>(s, snd entry) \<in> set files\<close> c i m s
    by (intro exI [of _ "snd entry"] exI [of _ importPath]) simp
  ultimately show "s \<in> path ` set (nodes (buildGraph ?p files))
     \<and> t \<in> path ` set (nodes (buildGraph ?p files))
     \<and> (\<exists>content importPath.
           (s, content) \<in> set files \<and> content \<noteq> []
           \<and> importPath \<in> set (parseImports ?p content s)
           \<and> matchingPath ?p importPath (map path (nodes (buildGraph ?p files))) = Some t)"
    unfolding buildGraph_paths node_paths_list by simp
qed

theorem no_dangling_edges_witness:
  "edges (buildGraph (getParser ''python'') moduleImportFiles) = [(''pkg/mod.py'', ''pkg/sibling.py'')]
   \<and> ''pkg/mod.py'' \<in> path ` set (nodes (buildGraph (getParser ''python'') moduleImportFiles))
   \<and> ''pkg/sibling.py'' \<in> path ` set (nodes (buildGraph (getParser ''python'') moduleImportFiles))"
proof -
  have e: "edges (buildGraph (getParser ''python'') moduleImportFiles)
      = [(''pkg/mod.py'', ''pkg/sibling.py'')]"
    by (simp add: getParser_python buildGraph_moduleImportFiles)
  then have "(''pkg/mod.py'', ''pkg/sibling.py'')
      \<in> set (edges (buildGraph (getParser ''python'') moduleImportFiles))"
    by simp
  with no_dangling_edges [of "''python''" moduleImportFiles] e show ?thesis
    by blast
qed

text \<open>
  C3. After every build, for every node \<open>t\<close> of the graph, the \<open>importedBy\<close> list of \<open>t\<close>
  holds exactly the paths of the nodes whose \<open>imports\<close> list holds the path of \<open>t\<close>; and
  every edge is recorded at both of its ends.
\<close>

theorem edges_mirrored:
  "\<forall>t \<in> set (nodes (buildGraph parser files)).
     set (importedBy t)
       = {path s | s. s \<in> set (nodes (buildGraph parser files)) \<and> path t \<in> set (imports' s)}
     \<and> (\<forall>(a, b) \<in> set (edges (buildGraph parser files)).
           (path t = a \<longrightarrow> b \<in> set (imports' t)) \<and> (path t = b \<longrightarrow> a \<in> set (importedBy t)))"
proof
  fix t
  let ?g = "buildGraph parser files"
  assume t: "t \<in> set (nodes ?g)"
  have imp: "b \<in> set (imports' n) \<longleftrightarrow> (path n, b) \<in> set (edges ?g)"
    if "n \<in> set (nodes ?g)" for n b
    using buildGraph_nodes [OF that] by simp
  have by': "a \<in> set (importedBy n) \<longleftrightarrow> (a, path n) \<in> set (edges ?g)"
    if "n \<in> set (nodes ?g)" for n a
    using buildGraph_nodes [OF that] by simp
  have src: "\<exists>s. s \<in> set (nodes ?g) \<and> path s = a" if "(a, b) \<in> set (edges ?g)" for a b
  proof -
    from that obtain entry where "entry \<in> set files"
      and e: "(a, b) \<in> set (fileEdges parser (map fst (initNodes parser files)) entry)"
      unfolding buildGraph_edges by auto
    from fileEdges_source [OF e] \<open>entry \<in> set files\<close> have "a \<in> fst ` set files"
      by simp
    then have "a \<in> path ` set (nodes ?g)"
      unfolding buildGraph_paths .
    then show ?thesis by (simp add: image_iff) metis
  qed
  have "set (importedBy t) = {path s | s. s \<in> set (nodes ?g) \<and> path t \<in> set (imports' s)}"
  proof (intro set_eqI iffI)
    fix a
    assume "a \<in> set (importedBy t)"
    then have e: "(a, path t) \<in> set (edges ?g)"
      by (simp add: by' [OF t])
    from src [OF e] obtain s where s: "s \<in> set (nodes ?g)" "path s = a"
      by blast
    from e s have "path t \<in> set (imports' s)"
      by (simp add: imp [OF s(1)])
    with s show "a \<in> {path s | s. s \<in> set (nodes ?g) \<and> path t \<in> set (imports' s)}"
      by blast
  next
    fix a
    assume "a \<in> {path s | s. s \<in> set (nodes ?g) \<and> path t \<in> set (imports' s)}"
    then obtain s where s: "s \<in> set (nodes ?g)" "path s = a" "path t \<in> set (imports' s)"
      by blast
    then have "(a, path t) \<in> set (edges ?g)"
      using imp [OF s(1), of "path t"] by simp
    then show "a \<in> set (importedBy t)"
      by (simp add: by' [OF t])
  qed
  moreover have "\<forall>(a, b) \<in> set (edges ?g).
      (path t = a \<longrightarrow> b \<in> set (imports' t)) \<and> (path t = b \<longrightarrow> a \<in> set (importedBy t))"
  proof (intro ballI, clarify)
    fix a b
    assume "(a, b) \<in> set (edges ?g)"
    then show "(path t = a \<longrightarrow> b \<in> set (imports' t)) \<and> (path t = b \<longrightarrow> a \<in> set (importedBy t))"
      by (simp add: imp [OF t] by' [OF t])
  qed
  ultimately show "set (importedBy t)
       = {path s | s. s \<in> set (nodes ?g) \<and> path t \<in> set (imports' s)}
     \<and> (\<forall>(a, b) \<in> set (edges ?g).
           (path t = a \<longrightarrow> b \<in> set (imports' t)) \<and> (path t = b \<longrightarrow> a \<in> set (importedBy t)))"
    by (rule conjI)
qed

theorem edges_mirrored_witness:
  "\<lparr>path = ''pkg/sibling.py'', type = ''other'', imports' = [], importedBy = [''pkg/mod.py'']\<rparr>
     \<in> set (nodes (buildGraph pyParser moduleImportFiles))
   \<and> (''pkg/mod.py'', ''pkg/sibling.py'') \<in> set (edges (buildGraph pyParser moduleImportFiles))
   \<and> {''pkg/mod.py''}
       = {path s | s. s \<in> set (nodes (buildGraph pyParser moduleImportFiles))
                     \<and> ''pkg/sibling.py'' \<in> set (imports' s)}"
proof -
  let ?t = "\<lparr>path = ''pkg/sibling.py'', type = ''other'', imports' = [],
              importedBy = [''pkg/mod.py'']\<rparr>"
  have m: "?t \<in> set (nodes (buildGraph pyParser moduleImportFiles))"
    by (simp add: buildGraph_moduleImportFiles)
  have e: "(''pkg/mod.py'', ''pkg/sibling.py'') \<in> set (edges (buildGraph pyParser moduleImportFiles))"
    by (simp add: buildGraph_moduleImportFiles)
  from edges_mirrored [of pyParser moduleImportFiles, THEN bspec, OF m]
  have "set (importedBy ?t)
      = {path s | s. s \<in> set (nodes (buildGraph pyParser moduleImportFiles))
                    \<and> path ?t \<in> set (imports' s)}"
    by (rule conjunct1)
  with m e show ?thesis by simp
qed

lemma edgeSet_buildGraph:
  "edgeSet (buildGraph parser files)
   = (\<Union>entry \<in> set files. set (fileEdges parser (map fst (initNodes parser files)) entry))"
  by (simp add: edgeSet_def buildGraph_edges)

lemma nodeSet_buildGraph:
  "nodeSet (buildGraph parser files)
   = (\<lambda>k. (k, getFileType parser k,
            {t. (k, t) \<in> edgeSet (buildGraph parser files)},
            {s. (s, k) \<in> edgeSet (buildGraph parser files)})) ` fst ` set files"
proof -
  let ?g = "buildGraph parser files"
  let ?F = "\<lambda>k. (k, getFileType parser k, {t. (k, t) \<in> edgeSet ?g}, {s. (s, k) \<in> edgeSet ?g})"
  have "(path n, type n, set (imports' n), set (importedBy n)) = ?F (path n)"
    if "n \<in> set (nodes ?g)" for n
    using buildGraph_nodes [OF that] by (simp add: edgeSet_def)
  then have "nodeSet ?g = (\<lambda>n. ?F (path n)) ` set (nodes ?g)"
    unfolding nodeSet_def by (intro image_cong) simp_all
  also have "\<dots> = ?F ` path ` set (nodes ?g)"
    by (simp add: image_image)
  finally show ?thesis
    unfolding buildGraph_paths .
qed

lemma fileEdges_set:
  assumes "set av = set av'"
  shows "fileEdges (getParser lang) av entry = fileEdges (getParser lang) av' entry"
proof -
  have "matched (getParser lang) av = matched (getParser lang) av'"
    using matchingPath_set [OF assms, of lang] by (simp add: matched_def fun_eq_iff)
  then show ?thesis
    by (simp add: fileEdges_def fileTargets_def)
qed

lemma buildGraph_order:
  assumes "set files = set files'"
  shows "nodeSet (buildGraph (getParser lang) files) = nodeSet (buildGraph (getParser lang) files')
    \<and> edgeSet (buildGraph (getParser lang) files) = edgeSet (buildGraph (getParser lang) files')"
proof -
  let ?p = "getParser lang"
  have "set (map fst (initNodes ?p files)) = set (map fst (initNodes ?p files'))"
    using keys_initNodes [of ?p files] keys_initNodes [of ?p files'] assms by simp
  then have "fileEdges ?p (map fst (initNodes ?p files)) = fileEdges ?p (map fst (initNodes ?p files'))"
    using fileEdges_set by blast
  with assms have e: "edgeSet (buildGraph ?p files) = edgeSet (buildGraph ?p files')"
    unfolding edgeSet_buildGraph by simp
  have "nodeSet (buildGraph ?p files) = nodeSet (buildGraph ?p files')"
    unfolding nodeSet_buildGraph e assms ..
  then show ?thesis using e by (rule conjI)
qed

text \<open>
  From a repository listing, the builder gets the first 200 entries that pass the filter
  of the parser. When no more than 200 pass, a permutation of the listing gives the
  builder a permutation of the same files.
\<close>

lemma dependencyGraph_order:
  assumes "mset tree = mset tree'"
    and "length (filter (isCodeFile (getParser lang)) tree) \<le> 200"
  shows "nodeSet (dependencyGraph (getParser lang) fetch tree)
           = nodeSet (dependencyGraph (getParser lang) fetch tree')
    \<and> edgeSet (dependencyGraph (getParser lang) fetch tree)
           = edgeSet (dependencyGraph (getParser lang) fetch tree')"
proof -
  let ?p = "getParser lang"
  from assms(1) have "mset (filter (isCodeFile ?p) tree) = mset (filter (isCodeFile ?p) tree')"
    by simp
  then have "length (filter (isCodeFile ?p) tree) = length (filter (isCodeFile ?p) tree')"
    by (rule mset_eq_length)
  with assms(2) have c: "codeFiles ?p tree = filter (isCodeFile ?p) tree"
    "codeFiles ?p tree' = filter (isCodeFile ?p) tree'"
    by (simp_all add: codeFiles_def)
  from assms(1) have "set tree = set tree'"
    by (rule mset_eq_setD)
  then have "set (fileContents fetch (codeFiles ?p tree)) = set (fileContents fetch (codeFiles ?p tree'))"
    unfolding c by (simp add: fileContents_def)
  then show ?thesis
    unfolding dependencyGraph_def by (rule buildGraph_order)
qed

text \<open>
  C5. For the parser of whatever language, two lists of files with their contents that
  differ only in their order, each a permutation of the other, give the same node set and
  the same edge set.
\<close>

theorem order_independence:
  assumes "mset files = mset files'"
  shows "nodeSet (buildGraph (getParser lang) files) = nodeSet (buildGraph (getParser lang) files')
    \<and> edgeSet (buildGraph (getParser lang) files) = edgeSet (buildGraph (getParser lang) files')"
proof -
  from assms have "set files = set files'"
    by (rule mset_eq_setD)
  then show ?thesis
    by (rule buildGraph_order)
qed

theorem order_independence_witness:
  "mset moduleImportFiles = mset (rev moduleImportFiles)
   \<and> edgeSet (buildGraph (getParser ''python'') (rev moduleImportFiles))
       = {(''pkg/mod.py'', ''pkg/sibling.py'')}
   \<and> nodeSet (buildGraph (getParser ''python'') moduleImportFiles)
       = nodeSet (buildGraph (getParser ''python'') (rev moduleImportFiles))
   \<and> edgeSet (buildGraph (getParser ''python'') moduleImportFiles)
       = edgeSet (buildGraph (getParser ''python'') (rev moduleImportFiles))"
proof -
  have a: "mset moduleImportFiles = mset (rev moduleImportFiles)"
    by simp
  have c: "edgeSet (buildGraph (getParser ''python'') moduleImportFiles)
      = {(''pkg/mod.py'', ''pkg/sibling.py'')}"
    by (simp add: edgeSet_def getParser_python buildGraph_moduleImportFiles)
  note t = order_independence [of moduleImportFiles "rev moduleImportFiles" "''python''", OF a]
  from t
  have g: "nodeSet (buildGraph (getParser ''python'') moduleImportFiles)
       = nodeSet (buildGraph (getParser ''python'') (rev moduleImportFiles))"
    "edgeSet (buildGraph (getParser ''python'') moduleImportFiles)
       = edgeSet (buildGraph (getParser ''python'') (rev moduleImportFiles))"
    by (rule conjunct1, rule conjunct2)
  have c': "edgeSet (buildGraph (getParser ''python'') (rev moduleImportFiles))
      = {(''pkg/mod.py'', ''pkg/sibling.py'')}"
    by (rule trans [OF g(2) [symmetric] c])
  show ?thesis
    by (intro conjI) (rule a c' g)+
qed

section \<open>Matches of the parsers' patterns consume text\<close>

text \<open>
  A match of a pattern that is not \<open>nullable\<close> ends after the position where the search
  began, so the loop over the matches always goes on to the rest of the text and ends with
  it; the five patterns of the parsers are of that kind.
\<close>

lemma repeat_le:
  assumes m: "\<And>st k res. m st k = Some res \<Longrightarrow>
      \<exists>st'. k st' = Some res \<and> length (rest st') \<le> length (rest st)"
  shows "repeat n m st k = Some res \<Longrightarrow>
      \<exists>st'. k st' = Some res \<and> length (rest st') \<le> length (rest st)"
proof (induction n arbitrary: st)
  case 0
  then show ?case by auto
next
  case (Suc n)
  let ?k = "\<lambda>st'. if length (rest st') < length (rest st) then repeat n m st' k else None"
  show ?case
  proof (cases "m st ?k")
    case None
    with Suc.prems have "k st = Some res" by simp
    then show ?thesis by auto
  next
    case (Some r)
    with Suc.prems have "r = res" by simp
    with Some m [of st ?k res] obtain st1 where
      st1: "?k st1 = Some res" "length (rest st1) \<le> length (rest st)"
      by blast
    then have "repeat n m st1 k = Some res"
      by (simp split: if_splits)
    from Suc.IH [OF this] obtain st2 where
      "k st2 = Some res" "length (rest st2) \<le> length (rest st1)"
      by blast
    with st1(2) show ?thesis
      by (intro exI [of _ st2]) simp
  qed
qed

lemma rmatch_le:
  "rmatch r st k = Some res \<Longrightarrow>
   \<exists>st'. k st' = Some res \<and> length (rest st') \<le> length (rest st)
     \<and> (\<not> nullable r \<longrightarrow> length (rest st') < length (rest st))"
proof (induction r arbitrary: st k res)
  case (Lit w)
  let ?st = "st\<lparr>prev := (if w = [] then prev st else Some (last w)),
               rest := drop (length w) (rest st)\<rparr>"
  from Lit have t: "take (length w) (rest st) = w" and k: "k ?st = Some res"
    by (simp_all split: if_splits)
  from t have "length (take (length w) (rest st)) = length w"
    by simp
  then have "length w \<le> length (rest st)"
    by simp
  then have "w \<noteq> [] \<longrightarrow> length (rest ?st) < length (rest st)"
    by (cases w) simp_all
  with k show ?case
    by (intro exI [of _ ?st]) simp
next
  case (Cls neg atoms)
  then obtain c cs where "rest st = c # cs" "k (st\<lparr>prev := Some c, rest := cs\<rparr>) = Some res"
    by (cases "rest st") (simp_all split: if_splits)
  then show ?case
    by (intro exI [of _ "st\<lparr>prev := Some c, rest := cs\<rparr>"]) simp
next
  case (Seq a b)
  from Seq.prems have "rmatch a st (\<lambda>st'. rmatch b st' k) = Some res"
    by simp
  from Seq.IH(1) [OF this] obtain st1 where
    st1: "rmatch b st1 k = Some res" "length (rest st1) \<le> length (rest st)"
      "\<not> nullable a \<longrightarrow> length (rest st1) < length (rest st)"
    by blast
  from Seq.IH(2) [OF st1(1)] obtain st2 where
    st2: "k st2 = Some res" "length (rest st2) \<le> length (rest st1)"
      "\<not> nullable b \<longrightarrow> length (rest st2) < length (rest st1)"
    by blast
  from st1(2,3) st2 show ?case
    by (intro exI [of _ st2]) auto
next
  case (Alt a b)
  show ?case
  proof (cases "rmatch a st k")
    case None
    with Alt.prems have "rmatch b st k = Some res" by simp
    from Alt.IH(2) [OF this] show ?thesis by auto
  next
    case (Some r)
    with Alt.prems have "rmatch a st k = Some res" by simp
    from Alt.IH(1) [OF this] show ?thesis by auto
  qed
next
  case (Star a)
  from Star.prems have "repeat (length (rest st)) (rmatch a) st k = Some res"
    by simp
  moreover have "\<And>st k res. rmatch a st k = Some res \<Longrightarrow>
      \<exists>st'. k st' = Some res \<and> length (rest st') \<le> length (rest st)"
    using Star.IH by blast
  ultimately have "\<exists>st'. k st' = Some res \<and> length (rest st') \<le> length (rest st)"
    by (rule repeat_le [rotated])
  then show ?case by simp
next
  case (Plus a)
  from Plus.prems
  have "rmatch a st (\<lambda>st'. repeat (length (rest st')) (rmatch a) st' k) = Some res"
    by simp
  from Plus.IH [OF this] obtain st1 where
    st1: "repeat (length (rest st1)) (rmatch a) st1 k = Some res"
      "length (rest st1) \<le> length (rest st)"
      "\<not> nullable a \<longrightarrow> length (rest st1) < length (rest st)"
    by blast
  have "\<And>st k res. rmatch a st k = Some res \<Longrightarrow>
      \<exists>st'. k st' = Some res \<and> length (rest st') \<le> length (rest st)"
    using Plus.IH by blast
  with st1(1) have "\<exists>st'. k st' = Some res \<and> length (rest st') \<le> length (rest st1)"
    by (rule repeat_le [rotated])
  then obtain st2 where "k st2 = Some res" "length (rest st2) \<le> length (rest st1)"
    by blast
  with st1(2,3) show ?case
    by (intro exI [of _ st2]) auto
next
  case (Opt a)
  show ?case
  proof (cases "rmatch a st k")
    case None
    with Opt.prems have "k st = Some res" by simp
    then show ?thesis by auto
  next
    case (Some r)
    with Opt.prems have "rmatch a st k = Some res" by simp
    from Opt.IH [OF this] show ?thesis by auto
  qed
next
  case (Grp a)
  let ?k = "\<lambda>st'. k (st'\<lparr>cap := Some (take (length (rest st) - length (rest st')) (rest st))\<rparr>)"
  from Grp.prems have "rmatch a st ?k = Some res"
    by simp
  from Grp.IH [OF this] obtain st1 where
    st1: "?k st1 = Some res" "length (rest st1) \<le> length (rest st)"
      "\<not> nullable a \<longrightarrow> length (rest st1) < length (rest st)"
    by blast
  then show ?case
    by (intro exI [of _ "st1\<lparr>cap := Some (take (length (rest st) - length (rest st1)) (rest st))\<rparr>"])
      simp
next
  case Bol
  then have "k st = Some res"
    by (simp split: option.splits if_splits)
  then show ?case by auto
next
  case Eol
  then have "k st = Some res"
    by (simp split: list.splits if_splits)
  then show ?case by auto
qed

lemma search_consumes:
  "\<not> nullable r \<Longrightarrow> search r p s = Some st \<Longrightarrow> length (rest st) < length s"
proof (induction s arbitrary: p)
  case Nil
  then have "rmatch r \<lparr>prev = p, rest = [], cap = None\<rparr> Some = Some st"
    by simp
  from rmatch_le [OF this] Nil.prems(1) show ?case by auto
next
  case (Cons c cs)
  show ?case
  proof (cases "rmatch r \<lparr>prev = p, rest = c # cs, cap = None\<rparr> Some")
    case None
    with Cons.prems have "search r (Some c) cs = Some st" by simp
    from Cons.IH [OF Cons.prems(1) this] show ?thesis by simp
  next
    case (Some st1)
    with Cons.prems have "rmatch r \<lparr>prev = p, rest = c # cs, cap = None\<rparr> Some = Some st"
      by simp
    from rmatch_le [OF this] Cons.prems(1) show ?thesis by auto
  qed
qed

lemma execAll_unfold:
  assumes "\<not> nullable r"
  shows "execAll r p s =
     (case search r p s of
        None \<Rightarrow> []
      | Some st \<Rightarrow> cap st # execAll r (prev st) (rest st))"
proof (cases "search r p s")
  case None
  then show ?thesis by (simp add: execAll.simps [of r p s])
next
  case (Some st)
  with search_consumes [OF assms Some] show ?thesis
    by (simp add: execAll.simps [of r p s])
qed

lemma patterns_consume:
  "\<not> nullable importRegex" "\<not> nullable dynamicImportRegex" "\<not> nullable simpleImportRegex"
  "\<not> nullable fromImportRegex" "\<not> nullable relativeImportRegex"
  by (simp_all add: importRegex_def dynamicImportRegex_def simpleImportRegex_def
      fromImportRegex_def relativeImportRegex_def)

section \<open>The import of a sibling module in Python\<close>

text \<open>
  The statement \<open>from . import\<close> followed by any text on the same line: the pattern of
  the plain import does not match, the two patterns that begin with \<open>from\<close> match once,
  both with the single dot as the module, and nothing matches after them on that line.
\<close>

lemma search_midLine:
  "\<not> isLineTerminator c \<Longrightarrow> \<forall>d \<in> set s. \<not> isLineTerminator d \<Longrightarrow>
   search (Seq Bol r) (Some c) s = None"
  by (induction s arbitrary: c) simp_all

lemma repeat_sp:
  "midLine st \<Longrightarrow>
   \<exists>st'. repeat n (rmatch sp) st Some = Some st' \<and> cap st' = cap st \<and> midLine st'"
proof (induction n arbitrary: st)
  case 0
  then show ?case by simp
next
  case (Suc n)
  show ?case
  proof (cases "rest st")
    case Nil
    with Suc.prems show ?thesis by (simp add: sp_def)
  next
    case (Cons c cs)
    show ?thesis
    proof (cases "isSpaceChar c")
      case False
      with Cons Suc.prems show ?thesis by (simp add: sp_def)
    next
      case True
      let ?st = "st\<lparr>prev := Some c, rest := cs\<rparr>"
      from Suc.prems Cons have "midLine ?st"
        by (simp add: midLine_def)
      from Suc.IH [OF this] obtain st' where
        "repeat n (rmatch sp) ?st Some = Some st'" "cap st' = cap st" "midLine st'"
        by auto
      with True Cons show ?thesis by (simp add: sp_def)
    qed
  qed
qed

lemma execAll_none: "search r p s = None \<Longrightarrow> execAll r p s = []"
  by (simp add: execAll.simps [of r p s])

lemma execAll_midLine:
  assumes "\<not> isLineTerminator c" "\<forall>d \<in> set s. \<not> isLineTerminator d"
  shows "execAll (Seq Bol r) (Some c) s = []"
  using search_midLine [OF assms, of r] by (rule execAll_none)

lemma simple_none:
  assumes "\<forall>c \<in> set name. \<not> isLineTerminator c"
  shows "execAll simpleImportRegex None (''from . import '' @ name) = []"
proof -
  have "search simpleImportRegex (Some CHR ''f'') (''rom . import '' @ name) = None"
    unfolding simpleImportRegex_def seqs.simps
    using assms by (intro search_midLine) (simp_all add: isLineTerminator_def)
  then have "search simpleImportRegex None (''from . import '' @ name) = None"
    by (simp add: simpleImportRegex_def)
  then show ?thesis
    by (rule execAll_none)
qed

lemma from_first:
  "rmatch fromImportRegex \<lparr>prev = None, rest = ''from . import '' @ name, cap = None\<rparr> Some
   = repeat (length name) (rmatch sp) \<lparr>prev = Some CHR '' '', rest = name, cap = Some ''.''\<rparr> Some"
  by (simp add: fromImportRegex_def sp_def dotted_def isSpaceChar_def isWordChar_def)

lemma relative_first:
  "rmatch relativeImportRegex \<lparr>prev = None, rest = ''from . import '' @ name, cap = None\<rparr> Some
   = repeat (length name) (rmatch sp) \<lparr>prev = Some CHR '' '', rest = name, cap = Some ''.''\<rparr> Some"
  by (simp add: relativeImportRegex_def sp_def dotted_def isSpaceChar_def isWordChar_def)

lemma execAll_one_line:
  assumes "\<not> nullable (Seq Bol r)" and "search (Seq Bol r) p s = Some st" and "midLine st"
  shows "execAll (Seq Bol r) p s = [cap st]"
proof -
  from assms(3) obtain c where "prev st = Some c" "\<not> isLineTerminator c"
    "\<forall>d \<in> set (rest st). \<not> isLineTerminator d"
    by (auto simp: midLine_def split: option.splits)
  then have "execAll (Seq Bol r) (prev st) (rest st) = []"
    by (simp add: execAll_midLine)
  with execAll_unfold [OF assms(1), of p s] assms(2) show ?thesis
    by simp
qed

lemma first_statement:
  assumes "\<forall>c \<in> set name. \<not> isLineTerminator c"
  shows "execAll fromImportRegex None (''from . import '' @ name) = [Some ''.'']"
    and "execAll relativeImportRegex None (''from . import '' @ name) = [Some ''.'']"
proof -
  let ?st = "\<lparr>prev = Some CHR '' '', rest = name, cap = Some ''.''\<rparr>"
  from assms have "midLine ?st"
    by (simp add: midLine_def isLineTerminator_def)
  from repeat_sp [OF this, of "length name"] obtain st' where
    st': "repeat (length name) (rmatch sp) ?st Some = Some st'" "cap st' = Some ''.''" "midLine st'"
    by auto
  from from_first [of name] st'(1)
  have "search fromImportRegex None (''from . import '' @ name) = Some st'"
    by simp
  then have "execAll fromImportRegex None (''from . import '' @ name) = [cap st']"
    using patterns_consume(4) st'(3)
    unfolding fromImportRegex_def seqs.simps by (intro execAll_one_line)
  with st'(2) show "execAll fromImportRegex None (''from . import '' @ name) = [Some ''.'']"
    by simp
  from relative_first [of name] st'(1)
  have "search relativeImportRegex None (''from . import '' @ name) = Some st'"
    by simp
  then have "execAll relativeImportRegex None (''from . import '' @ name) = [cap st']"
    using patterns_consume(5) st'(3)
    unfolding relativeImportRegex_def seqs.simps by (intro execAll_one_line)
  with st'(2) show "execAll relativeImportRegex None (''from . import '' @ name) = [Some ''.'']"
    by simp
qed

lemma collect_dot:
  "py_collectAbsolute ''pkg/mod.py'' [] = []"
  "py_collectAbsolute ''pkg/mod.py'' [Some ''.''] = [''/.py'']"
  "py_collectRelative ''pkg/mod.py'' [Some ''.''] = [''pkg/__init__.py'']"
  by code_simp+

lemma parseImports_name:
  assumes "\<forall>c \<in> set name. \<not> isLineTerminator c"
  shows "py_parseImports (''from . import '' @ name) ''pkg/mod.py'' = [''/.py'', ''pkg/__init__.py'']"
  unfolding py_parseImports_def simple_none [OF assms] first_statement [OF assms] collect_dot
  by simp

lemma initNodes_two: "map fst (initNodes parser [(a, x), (b, y)]) = (if a = b then [a] else [a, b])"
  by (simp add: initNodes_def)

lemma initNodes_three:
  "a \<noteq> b \<Longrightarrow> a \<noteq> c \<Longrightarrow> b \<noteq> c \<Longrightarrow> map fst (initNodes parser [(a, x), (b, y), (c, z)]) = [a, b, c]"
  by (simp add: initNodes_def)

lemma targets_dot:
  "concat (map (matched pyParser [''pkg/mod.py'', ''pkg/sibling.py'']) [''/.py'', ''pkg/__init__.py'']) = []"
  "concat (map (matched pyParser [''pkg/mod.py'', ''pkg/sibling.py'', ''pkg/__init__.py''])
     [''/.py'', ''pkg/__init__.py'']) = [''pkg/__init__.py'']"
  "fileEdges pyParser [''pkg/mod.py'', ''pkg/sibling.py''] (''pkg/sibling.py'', ''x = 1'') = []"
  "fileEdges pyParser [''pkg/mod.py'', ''pkg/sibling.py'', ''pkg/__init__.py'']
     (''pkg/sibling.py'', ''x = 1'') = []"
  "fileEdges pyParser [''pkg/mod.py'', ''pkg/sibling.py'', ''pkg/__init__.py'']
     (''pkg/__init__.py'', []) = []"
  by code_simp+

lemma parseImports_pyParser: "parseImports pyParser = py_parseImports"
  by (simp add: pyParser_def)

lemma fileEdges_name:
  assumes "\<forall>c \<in> set name. \<not> isLineTerminator c"
  shows "fileEdges pyParser av (''pkg/mod.py'', ''from . import '' @ name)
     = map (Pair ''pkg/mod.py'') (concat (map (matched pyParser av) [''/.py'', ''pkg/__init__.py'']))"
proof -
  have "''from . import '' @ name \<noteq> []"
    by simp
  then show ?thesis
    unfolding fileEdges_def fileTargets_def
    by (simp only: fst_conv snd_conv parseImports_pyParser parseImports_name [OF assms] if_False)
qed

lemma edges_importNameFiles:
  assumes "\<forall>c \<in> set name. \<not> isLineTerminator c"
  shows "edges (buildGraph pyParser (importNameFiles name)) = []"
    and "edges (buildGraph pyParser (importNameInitFiles name)) = [(''pkg/mod.py'', ''pkg/__init__.py'')]"
proof -
  have av: "map fst (initNodes pyParser (importNameFiles name)) = [''pkg/mod.py'', ''pkg/sibling.py'']"
    by (simp add: importNameFiles_def initNodes_two)
  have "edges (buildGraph pyParser (importNameFiles name))
      = fileEdges pyParser [''pkg/mod.py'', ''pkg/sibling.py''] (''pkg/mod.py'', ''from . import '' @ name)
        @ fileEdges pyParser [''pkg/mod.py'', ''pkg/sibling.py''] (''pkg/sibling.py'', ''x = 1'')"
    unfolding buildGraph_edges av
    by (simp only: importNameFiles_def list.map concat.simps append_Nil2)
  then show "edges (buildGraph pyParser (importNameFiles name)) = []"
    by (simp only: fileEdges_name [OF assms] targets_dot, simp)
  have av': "map fst (initNodes pyParser (importNameInitFiles name))
      = [''pkg/mod.py'', ''pkg/sibling.py'', ''pkg/__init__.py'']"
    by (simp add: importNameInitFiles_def initNodes_three)
  have "edges (buildGraph pyParser (importNameInitFiles name))
      = fileEdges pyParser [''pkg/mod.py'', ''pkg/sibling.py'', ''pkg/__init__.py'']
          (''pkg/mod.py'', ''from . import '' @ name)
        @ fileEdges pyParser [''pkg/mod.py'', ''pkg/sibling.py'', ''pkg/__init__.py'']
            (''pkg/sibling.py'', ''x = 1'')
        @ fileEdges pyParser [''pkg/mod.py'', ''pkg/sibling.py'', ''pkg/__init__.py'']
            (''pkg/__init__.py'', [])"
    unfolding buildGraph_edges av'
    by (simp only: importNameInitFiles_def list.map concat.simps append_Nil2)
  then show "edges (buildGraph pyParser (importNameInitFiles name))
      = [(''pkg/mod.py'', ''pkg/__init__.py'')]"
    by (simp only: fileEdges_name [OF assms] targets_dot, simp)
qed

lemma edges_siblingImportFiles: "edges (buildGraph pyParser siblingImportFiles) = []"
  by code_simp

text \<open>
  C1 as stated fails: in the build of \<open>pkg/mod.py\<close> with the content
  \<open>from . import sibling\<close> and \<open>pkg/sibling.py\<close>, the edge from \<open>pkg/mod.py\<close> to
  \<open>pkg/sibling.py\<close> is not in the graph.
\<close>

theorem sibling_edge_missing:
  "(''pkg/mod.py'', ''pkg/sibling.py'')
     \<notin> set (edges (buildGraph (getParser ''python'') siblingImportFiles))"
  by (simp add: getParser_python edges_siblingImportFiles)

text \<open>
  C1, amended. The statement \<open>from . import\<close> in \<open>pkg/mod.py\<close>, whatever is written after
  \<open>import\<close> on that line, gives two candidate paths, \<open>/.py\<close> and the init file of the
  package, \<open>pkg/__init__.py\<close>; the imported name is not part of either. So the build of
  \<open>pkg/mod.py\<close> and \<open>pkg/sibling.py\<close> has no edge; with \<open>pkg/__init__.py\<close> in the file set
  it has the edge from \<open>pkg/mod.py\<close> to \<open>pkg/__init__.py\<close> and no other; and the statement
  that names the module, \<open>from .sibling import x\<close>, gives the edge from \<open>pkg/mod.py\<close> to
  \<open>pkg/sibling.py\<close>.
\<close>

theorem sibling_import_resolves_to_init:
  assumes "\<forall>c \<in> set name. \<not> isLineTerminator c"
  shows "py_parseImports (''from . import '' @ name) ''pkg/mod.py''
       = [''/.py'', ''pkg/__init__.py'']
   \<and> edges (buildGraph (getParser ''python'') (importNameFiles name)) = []
   \<and> edges (buildGraph (getParser ''python'') (importNameInitFiles name))
       = [(''pkg/mod.py'', ''pkg/__init__.py'')]
   \<and> edges (buildGraph (getParser ''python'') moduleImportFiles)
       = [(''pkg/mod.py'', ''pkg/sibling.py'')]"
  by (simp only: getParser_python parseImports_name [OF assms] edges_importNameFiles [OF assms]
      buildGraph_moduleImportFiles DependencyGraph.simps simp_thms)

theorem sibling_import_resolves_to_init_witness:
  "list_all (\<lambda>c. \<not> isLineTerminator c) ''sibling''
   \<and> importNameFiles ''sibling'' = siblingImportFiles
   \<and> importNameInitFiles ''sibling'' = siblingImportInitFiles
   \<and> py_parseImports ''from . import sibling'' ''pkg/mod.py'' = [''/.py'', ''pkg/__init__.py'']
   \<and> edges (buildGraph (getParser ''python'') siblingImportFiles) = []
   \<and> edges (buildGraph (getParser ''python'') siblingImportInitFiles)
       = [(''pkg/mod.py'', ''pkg/__init__.py'')]"
proof -
  have a: "\<forall>c \<in> set ''sibling''. \<not> isLineTerminator c"
    by (simp add: isLineTerminator_def)
  have b: "importNameFiles ''sibling'' = siblingImportFiles"
    "importNameInitFiles ''sibling'' = siblingImportInitFiles"
    by (simp_all add: importNameFiles_def importNameInitFiles_def siblingImportFiles_def
        siblingImportInitFiles_def)
  from sibling_import_resolves_to_init [OF a] a b show ?thesis
    by (simp add: list_all_iff)
qed

end
